theory Spec2Isabelle
  imports Main
begin

section \<open>Requests, errors and the calls a crawler makes\<close>

text \<open>
  A JavaScript \<open>Error\<close> is kept by its message. \<open>TypeError\<close> is what the runtime throws when a
  method is called on \<open>undefined\<close> (a collaborator that was never configured or created).
\<close>

datatype error = Error string | TypeError string

fun message :: "error \<Rightarrow> string" where
  "message (Error m) = m"
| "message (TypeError m) = m"

text \<open>
  The fields of a \<open>Request\<close> that the crawler reads and writes. JavaScript numbers are
  modelled as integers; an absent \<open>errorMessages\<close> array (\<open>null\<close>) is the empty list.
\<close>

record request =
  url :: string
  retryCount :: int
  noRetry :: bool
  errorMessages :: "string list"

text \<open>
  Modelled from the spec: \<open>Request.pushErrorMessage\<close> (request.js is not among the source
  files). The spec's per-task procedure says that on failure the crawler appends the error
  message to \<open>request.errorMessages\<close>; the repository's tests see one message per failure.
\<close>

definition pushErrorMessage :: "request \<Rightarrow> error \<Rightarrow> request" where
  "pushErrorMessage r e = r\<lparr>errorMessages := errorMessages r @ [message e]\<rparr>"

datatype source = RequestList | RequestQueue

text \<open>The promise returned by \<open>autoscaledPool.run()\<close> of the pool with the given number.\<close>

datatype promise = PoolRunPromise nat

datatype log_entry =
    MaxRequestsReached int
  | CustomIsFinishedReturnedTrue
  | AllRequestsProcessed
  | PauseTimedOut
  | PersistInvalidConfig
  | PersistFailed error
  | AddRequestFailed error request
  | HandlerFailedReclaiming error string int
  | ErrorHandlerThrew error

text \<open>
  Every call the crawler makes on a collaborator (request list, request queue, autoscaled
  pool, the user's functions, the logger), in the order the calls are made.
\<close>

datatype call =
    FetchNextRequest source
  | AddRequest request bool
  | MarkRequestHandled source request
  | ReclaimRequest source request
  | IsEmpty source
  | IsFinished source
  | HandledCount source
  | PersistState
  | HandleRequestFunction request
  | HandleFailedRequestFunction request error
  | CustomIsFinishedFunction
  | NewAutoscaledPool nat
  | PoolRun nat
  | PoolPause nat int
  | PoolAbort nat
  | RejectOnAbort error
  | Log log_entry

text \<open>
  The collaborators themselves are not among the source files, so what each call answers is
  a parameter: a function of the calls made so far and of the call's arguments. \<open>Inl\<close> is a
  rejected promise (or a thrown exception), \<open>Inr\<close> a resolved one. The user's handler may
  change the request it is given before it settles, so it answers with the request as it
  left it.
\<close>

record env =
  env_fetchNextRequest :: "call list \<Rightarrow> source \<Rightarrow> error + request option"
  env_addRequest :: "call list \<Rightarrow> request \<Rightarrow> bool \<Rightarrow> error + unit"
  env_markRequestHandled :: "call list \<Rightarrow> source \<Rightarrow> request \<Rightarrow> error + unit"
  env_reclaimRequest :: "call list \<Rightarrow> source \<Rightarrow> request \<Rightarrow> error + unit"
  env_isEmpty :: "call list \<Rightarrow> source \<Rightarrow> error + bool"
  env_isFinished :: "call list \<Rightarrow> source \<Rightarrow> error + bool"
  env_handledCount :: "call list \<Rightarrow> source \<Rightarrow> error + int"
  env_persistState :: "call list \<Rightarrow> error + unit"
  env_handleRequestFunction :: "call list \<Rightarrow> request \<Rightarrow> request \<times> (error + unit)"
  env_handleFailedRequestFunction :: "call list \<Rightarrow> request \<Rightarrow> error \<Rightarrow> error + unit"
  env_isFinishedFunction :: "call list \<Rightarrow> error + bool"
  env_poolPause :: "call list \<Rightarrow> int \<Rightarrow> error + unit"
  env_poolAbort :: "call list \<Rightarrow> error + unit"

section \<open>BasicCrawler (src/basic_crawler.js)\<close>

text \<open>
  The fields of \<open>this\<close>. \<open>requestList\<close> and \<open>requestQueue\<close> say whether the collaborator was
  given; \<open>customIsFinishedFunction\<close> whether \<open>autoscaledPoolOptions.isFinishedFunction\<close> was.
  \<open>isRunning\<close> and \<open>rejectOnAbortPromise\<close> exist only in the abortable variant of the class;
  the promise is undefined until \<open>run\<close> creates it, then pending, and rejected once
  \<open>rejectOnAbort\<close> has been called. \<open>calls\<close> is the log of the calls made so far, oldest first.
\<close>

datatype abort_promise = NoPromise | Pending | RejectedWith error

record crawler =
  requestList :: bool
  requestQueue :: bool
  maxRequestRetries :: int
  maxRequestsPerCrawl :: "int option"
  customIsFinishedFunction :: bool
  handledRequestsCount :: int
  autoscaledPool :: "nat option"
  isRunningPromise :: "promise option"
  isRunning :: bool
  rejectOnAbortPromise :: abort_promise
  calls :: "call list"

definition SAFE_MIGRATION_WAIT_MILLIS :: int where
  "SAFE_MIGRATION_WAIT_MILLIS = 20000"

definition emit :: "call \<Rightarrow> crawler \<Rightarrow> crawler" where
  "emit k c = c\<lparr>calls := calls c @ [k]\<rparr>"

subsection \<open>Calls on the collaborators\<close>

definition list_fetchNextRequest :: "env \<Rightarrow> crawler \<Rightarrow> (error + request option) \<times> crawler" where
  "list_fetchNextRequest env c =
     (if requestList c
      then (env_fetchNextRequest env (calls c) RequestList, emit (FetchNextRequest RequestList) c)
      else (Inl (TypeError ''requestList is undefined''), c))"

definition queue_fetchNextRequest :: "env \<Rightarrow> crawler \<Rightarrow> (error + request option) \<times> crawler" where
  "queue_fetchNextRequest env c =
     (if requestQueue c
      then (env_fetchNextRequest env (calls c) RequestQueue, emit (FetchNextRequest RequestQueue) c)
      else (Inl (TypeError ''requestQueue is undefined''), c))"

definition queue_addRequest :: "env \<Rightarrow> request \<Rightarrow> bool \<Rightarrow> crawler \<Rightarrow> (error + unit) \<times> crawler" where
  "queue_addRequest env r forefront c =
     (if requestQueue c
      then (env_addRequest env (calls c) r forefront, emit (AddRequest r forefront) c)
      else (Inl (TypeError ''requestQueue is undefined''), c))"

definition present :: "crawler \<Rightarrow> source \<Rightarrow> bool" where
  "present c src = (case src of RequestList \<Rightarrow> requestList c | RequestQueue \<Rightarrow> requestQueue c)"

definition markRequestHandled :: "env \<Rightarrow> source \<Rightarrow> request \<Rightarrow> crawler \<Rightarrow> (error + unit) \<times> crawler" where
  "markRequestHandled env src r c =
     (if present c src
      then (env_markRequestHandled env (calls c) src r, emit (MarkRequestHandled src r) c)
      else (Inl (TypeError ''source is undefined''), c))"

definition reclaimRequest :: "env \<Rightarrow> source \<Rightarrow> request \<Rightarrow> crawler \<Rightarrow> (error + unit) \<times> crawler" where
  "reclaimRequest env src r c =
     (if present c src
      then (env_reclaimRequest env (calls c) src r, emit (ReclaimRequest src r) c)
      else (Inl (TypeError ''source is undefined''), c))"

definition handleFailedRequestFunction :: "env \<Rightarrow> request \<Rightarrow> error \<Rightarrow> crawler \<Rightarrow> (error + unit) \<times> crawler" where
  "handleFailedRequestFunction env r err c =
     (env_handleFailedRequestFunction env (calls c) r err, emit (HandleFailedRequestFunction r err) c)"

subsection \<open>\<open>_fetchNextRequest\<close>\<close>

text \<open>
  \<open>Promise.all\<close> starts both calls, the queue's first, before either settles; it rejects when
  one of them does (the model reports the queue's rejection when both reject).
\<close>

definition fetchNextRequest :: "env \<Rightarrow> crawler \<Rightarrow> (error + request option) \<times> crawler" where
  "fetchNextRequest env c =
     (if \<not> requestList c then queue_fetchNextRequest env c
      else (case list_fetchNextRequest env c of
        (Inl e, c1) \<Rightarrow> (Inl e, c1)
      | (Inr request, c1) \<Rightarrow>
          (if \<not> requestQueue c1 then (Inr request, c1)
           else (case request of
             None \<Rightarrow> queue_fetchNextRequest env c1
           | Some r \<Rightarrow>
               (case queue_addRequest env r True c1 of
                 (Inl err, c2) \<Rightarrow>
                   (case reclaimRequest env RequestList r (emit (Log (AddRequestFailed err r)) c2) of
                     (Inl e, c3) \<Rightarrow> (Inl e, c3)
                   | (Inr u, c3) \<Rightarrow> (Inr None, c3))
               | (Inr u, c2) \<Rightarrow>
                   (case queue_fetchNextRequest env c2 of
                     (nextRequest, c3) \<Rightarrow>
                       (case markRequestHandled env RequestList r c3 of
                         (handled, c4) \<Rightarrow>
                           (case nextRequest of
                             Inl e \<Rightarrow> (Inl e, c4)
                           | Inr n \<Rightarrow>
                               (case handled of
                                 Inl e \<Rightarrow> (Inl e, c4)
                               | Inr u' \<Rightarrow> (Inr n, c4))))))))))"

subsection \<open>\<open>_requestFunctionErrorHandler\<close>\<close>

text \<open>
  The request is a mutable object: the result carries the request as the handler left it,
  which is also the value every later call receives.
\<close>

definition requestFunctionErrorHandler ::
  "env \<Rightarrow> error \<Rightarrow> request \<Rightarrow> source \<Rightarrow> crawler \<Rightarrow> (error + unit) \<times> request \<times> crawler" where
  "requestFunctionErrorHandler env err request src c =
     (let r1 = pushErrorMessage request err in
      if \<not> noRetry r1 \<and> retryCount r1 < maxRequestRetries c then
        (let r2 = r1\<lparr>retryCount := retryCount r1 + 1\<rparr>;
             c1 = emit (Log (HandlerFailedReclaiming err (url r2) (retryCount r2))) c
         in case reclaimRequest env src r2 c1 of (res, c2) \<Rightarrow> (res, r2, c2))
      else
        (let c1 = c\<lparr>handledRequestsCount := handledRequestsCount c + 1\<rparr>
         in case markRequestHandled env src r1 c1 of
              (Inl e, c2) \<Rightarrow> (Inl e, r1, c2)
            | (Inr u, c2) \<Rightarrow>
                (case handleFailedRequestFunction env r1 err c2 of (res, c3) \<Rightarrow> (res, r1, c3))))"

subsection \<open>\<open>_runTaskFunction\<close>\<close>

definition taskSource :: "crawler \<Rightarrow> source" where
  "taskSource c = (if requestQueue c then RequestQueue else RequestList)"

definition handleError ::
  "env \<Rightarrow> error \<Rightarrow> request \<Rightarrow> source \<Rightarrow> crawler \<Rightarrow> (error + unit) \<times> crawler" where
  "handleError env err request src c =
     (case requestFunctionErrorHandler env err request src c of
        (Inl secondaryError, r, c1) \<Rightarrow> (Inl secondaryError, emit (Log (ErrorHandlerThrew secondaryError)) c1)
      | (Inr u, r, c1) \<Rightarrow> (Inr (), c1))"

definition runTaskFunction :: "env \<Rightarrow> crawler \<Rightarrow> (error + unit) \<times> crawler" where
  "runTaskFunction env c =
     (let src = taskSource c in
      case fetchNextRequest env c of
        (Inl e, c1) \<Rightarrow> (Inl e, c1)
      | (Inr None, c1) \<Rightarrow> (Inr (), c1)
      | (Inr (Some request), c1) \<Rightarrow>
          (case env_handleRequestFunction env (calls c1) request of
            (request', outcome) \<Rightarrow>
              (let c2 = emit (HandleRequestFunction request) c1 in
               case outcome of
                 Inl err \<Rightarrow> handleError env err request' src c2
               | Inr u \<Rightarrow>
                   (case markRequestHandled env src request' c2 of
                     (Inl err, c3) \<Rightarrow> handleError env err request' src c3
                   | (Inr u', c3) \<Rightarrow>
                       (Inr (), c3\<lparr>handledRequestsCount := handledRequestsCount c3 + 1\<rparr>)))))"

subsection \<open>\<open>_isTaskReadyFunction\<close>, \<open>_defaultIsFinishedFunction\<close> and the pool's configuration\<close>

definition method_isTaskReadyFunction :: "env \<Rightarrow> crawler \<Rightarrow> (error + bool) \<times> crawler" where
  "method_isTaskReadyFunction env c =
     (case (if requestList c
            then (env_isEmpty env (calls c) RequestList, emit (IsEmpty RequestList) c)
            else (Inr True, c)) of
        (Inl e, c1) \<Rightarrow> (Inl e, c1)
      | (Inr isRequestListEmpty, c1) \<Rightarrow>
          (if \<not> isRequestListEmpty then (Inr True, c1)
           else if requestQueue c1
           then (case env_isEmpty env (calls c1) RequestQueue of
                   Inl e \<Rightarrow> (Inl e, emit (IsEmpty RequestQueue) c1)
                 | Inr b \<Rightarrow> (Inr (\<not> b), emit (IsEmpty RequestQueue) c1))
           else (Inr False, c1)))"

text \<open>\<open>Promise.all\<close> again: both collaborators are asked, the list first.\<close>

definition defaultIsFinishedFunction :: "env \<Rightarrow> crawler \<Rightarrow> (error + bool) \<times> crawler" where
  "defaultIsFinishedFunction env c =
     (case (if requestList c
            then (env_isFinished env (calls c) RequestList, emit (IsFinished RequestList) c)
            else (Inr True, c)) of
        (isRequestListFinished, c1) \<Rightarrow>
          (case (if requestQueue c1
                 then (env_isFinished env (calls c1) RequestQueue, emit (IsFinished RequestQueue) c1)
                 else (Inr True, c1)) of
             (isRequestQueueFinished, c2) \<Rightarrow>
               (case isRequestListFinished of
                  Inl e \<Rightarrow> (Inl e, c2)
                | Inr l \<Rightarrow>
                    (case isRequestQueueFinished of
                       Inl e \<Rightarrow> (Inl e, c2)
                     | Inr q \<Rightarrow> (Inr (l \<and> q), c2)))))"

text \<open>
  \<open>maxRequestsPerCrawl && maxRequestsPerCrawl <= this.handledRequestsCount\<close>, read as a
  condition: \<open>undefined\<close> and \<open>0\<close> are both falsy in JavaScript.
\<close>

definition isMaxPagesExceeded :: "crawler \<Rightarrow> bool" where
  "isMaxPagesExceeded c =
     (case maxRequestsPerCrawl c of
        None \<Rightarrow> False
      | Some m \<Rightarrow> m \<noteq> 0 \<and> m \<le> handledRequestsCount c)"

definition isTaskReadyFunction :: "env \<Rightarrow> crawler \<Rightarrow> (error + bool) \<times> crawler" where
  "isTaskReadyFunction env c =
     (if isMaxPagesExceeded c then (Inr False, c) else method_isTaskReadyFunction env c)"

text \<open>
  In the branch below the limit, \<open>isFinished\<close> holds the promise that the custom or the
  default function returned (it is not awaited), and a promise is truthy: the message is
  logged whatever the promise settles to.
\<close>

definition isFinishedFunction :: "env \<Rightarrow> crawler \<Rightarrow> (error + bool) \<times> crawler" where
  "isFinishedFunction env c =
     (if isMaxPagesExceeded c
      then (Inr True, emit (Log (MaxRequestsReached (handledRequestsCount c))) c)
      else (case (if customIsFinishedFunction c
                  then (env_isFinishedFunction env (calls c), emit CustomIsFinishedFunction c)
                  else defaultIsFinishedFunction env c) of
              (isFinished, c1) \<Rightarrow>
                (isFinished,
                 emit (Log (if customIsFinishedFunction c
                            then CustomIsFinishedReturnedTrue else AllRequestsProcessed)) c1)))"

subsection \<open>\<open>_loadHandledRequestCount\<close> and \<open>run\<close>\<close>

definition loadHandledRequestCount :: "env \<Rightarrow> crawler \<Rightarrow> (error + unit) \<times> crawler" where
  "loadHandledRequestCount env c =
     (if requestQueue c then
        (case env_handledCount env (calls c) RequestQueue of
           Inl e \<Rightarrow> (Inl e, emit (HandledCount RequestQueue) c)
         | Inr n \<Rightarrow> (Inr (), (emit (HandledCount RequestQueue) c)\<lparr>handledRequestsCount := n\<rparr>))
      else if requestList c then
        (case env_handledCount env (calls c) RequestList of
           Inl e \<Rightarrow> (Inl e, emit (HandledCount RequestList) c)
         | Inr n \<Rightarrow> (Inr (), (emit (HandledCount RequestList) c)\<lparr>handledRequestsCount := n\<rparr>))
      else (Inr (), c))"

fun isNewAutoscaledPool :: "call \<Rightarrow> bool" where
  "isNewAutoscaledPool (NewAutoscaledPool n) = True"
| "isNewAutoscaledPool k = False"

definition poolsCreated :: "crawler \<Rightarrow> nat" where
  "poolsCreated c = length (filter isNewAutoscaledPool (calls c))"

text \<open>
  \<open>run\<close> is an async function with two suspension points. \<open>run_enter\<close> is the code up to the
  first one (\<open>await this._loadHandledRequestCount()\<close>): either the early return of the stored
  promise, or the count loaded. \<open>run_createPool\<close> is the code between the two awaits; the call
  then waits on \<open>await this.isRunningPromise\<close>. \<open>run\<close> is a call that nothing interleaves with
  before it reaches that second await.
\<close>

datatype run_state =
    Returned "promise option"
  | Loaded
  | Awaiting promise
  | Rejected error

definition run_enter :: "env \<Rightarrow> crawler \<Rightarrow> run_state \<times> crawler" where
  "run_enter env c =
     (case isRunningPromise c of
        Some p \<Rightarrow> (Returned (Some p), c)
      | None \<Rightarrow>
          (case loadHandledRequestCount env c of
             (Inl e, c1) \<Rightarrow> (Rejected e, c1)
           | (Inr u, c1) \<Rightarrow> (Loaded, c1)))"

definition run_createPool :: "crawler \<Rightarrow> run_state \<times> crawler" where
  "run_createPool c =
     (let n = poolsCreated c;
          c1 = emit (NewAutoscaledPool n) c;
          c2 = emit (PoolRun n) (c1\<lparr>autoscaledPool := Some n\<rparr>)
      in (Awaiting (PoolRunPromise n), c2\<lparr>isRunningPromise := Some (PoolRunPromise n)\<rparr>))"

definition run :: "env \<Rightarrow> crawler \<Rightarrow> run_state \<times> crawler" where
  "run env c =
     (case run_enter env c of
        (Loaded, c1) \<Rightarrow> run_createPool c1
      | (st, c1) \<Rightarrow> (st, c1))"

subsection \<open>\<open>_pauseOnMigration\<close>\<close>

fun string_includes :: "string \<Rightarrow> string \<Rightarrow> bool" where
  "string_includes [] sub = (sub = [])"
| "string_includes (x # xs) sub = (take (length sub) (x # xs) = sub \<or> string_includes xs sub)"

definition pauseOnMigration :: "env \<Rightarrow> crawler \<Rightarrow> (error + unit) \<times> crawler" where
  "pauseOnMigration env c =
     (case autoscaledPool c of
        None \<Rightarrow> (Inl (TypeError ''autoscaledPool is undefined''), c)
      | Some n \<Rightarrow>
          (let c1 = emit (PoolPause n SAFE_MIGRATION_WAIT_MILLIS) c;
               c2 = (case env_poolPause env (calls c) SAFE_MIGRATION_WAIT_MILLIS of
                       Inl e \<Rightarrow> emit (Log PauseTimedOut) c1
                     | Inr u \<Rightarrow> c1)
           in if requestList c2 then
                (case env_persistState env (calls c2) of
                   Inl err \<Rightarrow>
                     (Inr (),
                      emit (Log (if string_includes (message err) ''Cannot persist state.''
                                 then PersistInvalidConfig else PersistFailed err))
                        (emit PersistState c2))
                 | Inr u \<Rightarrow> (Inr (), emit PersistState c2))
              else (Inr (), c2)))"

section \<open>The abortable BasicCrawler (the second copy of basic_crawler.js)\<close>

text \<open>
  This copy of the class has \<open>abort\<close>, the \<open>isRunning\<close> flag and \<open>rejectOnAbortPromise\<close>, and
  no migration listener.
  \<open>_fetchNextRequest\<close>, \<open>_isTaskReadyFunction\<close>, \<open>_defaultIsFinishedFunction\<close> and
  \<open>_loadHandledRequestCount\<close> are the same text as above; after its first statement,
  \<open>_requestFunctionErrorHandler\<close> is too.
\<close>

definition requestFunctionErrorHandler_abortable ::
  "env \<Rightarrow> error \<Rightarrow> request \<Rightarrow> source \<Rightarrow> crawler \<Rightarrow> (error + unit) \<times> request \<times> crawler" where
  "requestFunctionErrorHandler_abortable env err request src c =
     (if \<not> isRunning c
      then (case reclaimRequest env src request c of (res, c1) \<Rightarrow> (res, request, c1))
      else requestFunctionErrorHandler env err request src c)"

definition handleError_abortable ::
  "env \<Rightarrow> error \<Rightarrow> request \<Rightarrow> source \<Rightarrow> crawler \<Rightarrow> (error + unit) \<times> crawler" where
  "handleError_abortable env err request src c =
     (case requestFunctionErrorHandler_abortable env err request src c of
        (Inl secondaryError, r, c1) \<Rightarrow> (Inl secondaryError, emit (Log (ErrorHandlerThrew secondaryError)) c1)
      | (Inr u, r, c1) \<Rightarrow> (Inr (), c1))"

text \<open>
  A task is in flight while it waits on
  \<open>Promise.race([this.handleRequestFunction({ request }), this.rejectOnAbortPromise])\<close>.
  \<open>task_begin\<close> is \<open>_runTaskFunction\<close> up to that await, \<open>task_settle\<close> the rest, given how the
  race settled: the request as the handler left it, and \<open>Inr\<close> when the handler resolved
  first, \<open>Inl\<close> when the handler or the abort promise rejected first.

  \<open>race\<close> is the race itself, asked when one of the two has just settled: \<open>handler\<close> is how
  the handler's promise has settled (\<open>None\<close> while it is pending), \<open>request\<close> the request as
  it stands. The handler comes first in the array, so it wins when it has settled; otherwise
  a rejected \<open>rejectOnAbortPromise\<close> rejects the race with its error, a pending one leaves
  the race pending, and \<open>undefined\<close> is a value that resolves the race at once.
  \<open>task_resume\<close> is the task at such a moment: it goes on when the race has settled and
  stays in flight otherwise.
\<close>

datatype task_state = Done "error + unit" | InFlight request source

definition task_begin :: "env \<Rightarrow> crawler \<Rightarrow> task_state \<times> crawler" where
  "task_begin env c =
     (let src = taskSource c in
      case fetchNextRequest env c of
        (Inl e, c1) \<Rightarrow> (Done (Inl e), c1)
      | (Inr None, c1) \<Rightarrow> (Done (Inr ()), c1)
      | (Inr (Some request), c1) \<Rightarrow> (InFlight request src, emit (HandleRequestFunction request) c1))"

definition task_settle ::
  "env \<Rightarrow> request \<times> (error + unit) \<Rightarrow> source \<Rightarrow> crawler \<Rightarrow> (error + unit) \<times> crawler" where
  "task_settle env settled src c =
     (case settled of
        (request', Inl err) \<Rightarrow> handleError_abortable env err request' src c
      | (request', Inr u) \<Rightarrow>
          (case markRequestHandled env src request' c of
             (Inl err, c1) \<Rightarrow> handleError_abortable env err request' src c1
           | (Inr u', c1) \<Rightarrow> (Inr (), c1\<lparr>handledRequestsCount := handledRequestsCount c1 + 1\<rparr>)))"

definition race ::
  "(request \<times> (error + unit)) option \<Rightarrow> request \<Rightarrow> crawler \<Rightarrow> (request \<times> (error + unit)) option" where
  "race handler request c =
     (case handler of
        Some settled \<Rightarrow> Some settled
      | None \<Rightarrow>
          (case rejectOnAbortPromise c of
             NoPromise \<Rightarrow> Some (request, Inr ())
           | Pending \<Rightarrow> None
           | RejectedWith err \<Rightarrow> Some (request, Inl err)))"

definition task_resume ::
  "env \<Rightarrow> (request \<times> (error + unit)) option \<Rightarrow> request \<Rightarrow> source \<Rightarrow> crawler \<Rightarrow> task_state \<times> crawler" where
  "task_resume env handler request src c =
     (case race handler request c of
        None \<Rightarrow> (InFlight request src, c)
      | Some settled \<Rightarrow> (case task_settle env settled src c of (res, c1) \<Rightarrow> (Done res, c1)))"

text \<open>
  A task that nothing interleaves with: the race settles as the handler does. The handler
  answers from the calls made before it was invoked.
\<close>

definition runTaskFunction_abortable :: "env \<Rightarrow> crawler \<Rightarrow> (error + unit) \<times> crawler" where
  "runTaskFunction_abortable env c =
     (case task_begin env c of
        (Done res, c1) \<Rightarrow> (res, c1)
      | (InFlight request src, c1) \<Rightarrow>
          task_settle env (env_handleRequestFunction env (butlast (calls c1)) request) src c1)"

definition poolRunTaskFunction_abortable :: "env \<Rightarrow> crawler \<Rightarrow> (error + unit) \<times> crawler" where
  "poolRunTaskFunction_abortable env c =
     (if \<not> isRunning c then (Inr (), c) else runTaskFunction_abortable env c)"

definition isTaskReadyFunction_abortable :: "env \<Rightarrow> crawler \<Rightarrow> (error + bool) \<times> crawler" where
  "isTaskReadyFunction_abortable env c =
     (if isMaxPagesExceeded c \<or> \<not> isRunning c then (Inr False, c)
      else method_isTaskReadyFunction env c)"

definition isFinishedFunction_abortable :: "env \<Rightarrow> crawler \<Rightarrow> (error + bool) \<times> crawler" where
  "isFinishedFunction_abortable env c =
     (if isMaxPagesExceeded c \<or> \<not> isRunning c then (Inr True, c)
      else if customIsFinishedFunction c
      then (env_isFinishedFunction env (calls c), emit CustomIsFinishedFunction c)
      else defaultIsFinishedFunction env c)"

definition run_enter_abortable :: "env \<Rightarrow> crawler \<Rightarrow> run_state \<times> crawler" where
  "run_enter_abortable env c =
     (if isRunning c then (Returned (isRunningPromise c), c)
      else
        (case loadHandledRequestCount env c of
           (Inl e, c1) \<Rightarrow> (Rejected e, c1)
         | (Inr u, c1) \<Rightarrow> (Loaded, c1)))"

definition run_createPool_abortable :: "crawler \<Rightarrow> run_state \<times> crawler" where
  "run_createPool_abortable c =
     (let n = poolsCreated c;
          c1 = emit (NewAutoscaledPool n) c;
          c2 = emit (PoolRun n)
                 (c1\<lparr>autoscaledPool := Some n, isRunning := True, rejectOnAbortPromise := Pending\<rparr>)
      in (Awaiting (PoolRunPromise n), c2\<lparr>isRunningPromise := Some (PoolRunPromise n)\<rparr>))"

definition run_abortable :: "env \<Rightarrow> crawler \<Rightarrow> run_state \<times> crawler" where
  "run_abortable env c =
     (case run_enter_abortable env c of
        (Loaded, c1) \<Rightarrow> run_createPool_abortable c1
      | (st, c1) \<Rightarrow> (st, c1))"

text \<open>
  \<open>this.rejectOnAbort\<close>, the \<open>reject\<close> function of \<open>rejectOnAbortPromise\<close>: only the first call
  settles the promise. Before \<open>run\<close> has created the promise there is no such function.
\<close>

definition rejectOnAbort :: "error \<Rightarrow> crawler \<Rightarrow> (error + unit) \<times> crawler" where
  "rejectOnAbort err c =
     (case rejectOnAbortPromise c of
        NoPromise \<Rightarrow> (Inl (TypeError ''this.rejectOnAbort is not a function''), c)
      | Pending \<Rightarrow> (Inr (), (emit (RejectOnAbort err) c)\<lparr>rejectOnAbortPromise := RejectedWith err\<rparr>)
      | RejectedWith e \<Rightarrow> (Inr (), emit (RejectOnAbort err) c))"

text \<open>
  The code of \<open>run\<close> after \<open>await this.isRunningPromise\<close> has settled; the result is what the
  promise of this call of \<open>run\<close> settles to. A rejection of the pool is caught.
\<close>

definition run_settled_abortable :: "error + unit \<Rightarrow> crawler \<Rightarrow> (error + unit) \<times> crawler" where
  "run_settled_abortable outcome c =
     (case outcome of
        Inr u \<Rightarrow> (Inr (), c\<lparr>isRunning := False\<rparr>)
      | Inl err \<Rightarrow> rejectOnAbort err (c\<lparr>isRunning := False\<rparr>))"

text \<open>
  \<open>abort\<close> is an async function with one suspension point, \<open>await this.autoscaledPool.abort()\<close>.
  \<open>abort_enter\<close> is the code up to it, with what the pool's \<open>abort()\<close> will settle to;
  \<open>abort_resume\<close> is the code after it. \<open>abort\<close> is a call that nothing interleaves with.
\<close>

datatype abort_state = AbortFailed error | AwaitingPoolAbort "error + unit"

definition abort_enter :: "env \<Rightarrow> crawler \<Rightarrow> abort_state \<times> crawler" where
  "abort_enter env c =
     (let c1 = c\<lparr>isRunning := False\<rparr> in
      case autoscaledPool c1 of
        None \<Rightarrow> (AbortFailed (TypeError ''autoscaledPool is undefined''), c1)
      | Some n \<Rightarrow> (AwaitingPoolAbort (env_poolAbort env (calls c1)), emit (PoolAbort n) c1))"

definition abort_resume :: "error + unit \<Rightarrow> crawler \<Rightarrow> (error + unit) \<times> crawler" where
  "abort_resume settled c =
     (case settled of
        Inl e \<Rightarrow> (Inl e, c)
      | Inr u \<Rightarrow>
          rejectOnAbort (Error ''BasicCrawler: .abort() function has been called. Aborting the crawler.'') c)"

definition abort :: "env \<Rightarrow> crawler \<Rightarrow> (error + unit) \<times> crawler" where
  "abort env c =
     (case abort_enter env c of
        (AbortFailed e, c1) \<Rightarrow> (Inl e, c1)
      | (AwaitingPoolAbort settled, c1) \<Rightarrow> abort_resume settled c1)"

section \<open>PuppeteerPool (src/puppeteer_pool.js)\<close>

text \<open>
  Pages and browser instances are objects with identity: a page is a number, an instance is
  kept under its \<open>id\<close> in a table of all instances created so far, and the pool's
  \<open>activeInstances\<close> and \<open>retiredInstances\<close> objects are the ids they hold, in the order
  \<open>Object.values\<close> would list them (ascending, the keys being integers).
\<close>

record launch_options =
  headless :: "bool option"
  devtools :: bool
  args :: "string list"
  proxyUrl :: "string option"

text \<open>What \<open>launchPuppeteerFunction\<close> of the pool stores on the browser it returns.\<close>

record browser =
  browser_recycleDiskCacheDir :: "string option"

record puppeteer_instance =
  activePages :: int
  totalPages :: int
  browserPromise :: "error + browser"
  lastPageOpenedAt :: int
  killed :: bool
  childProcess :: bool
  recycleDiskCacheDir :: "string option"

datatype pool_op =
    Mkdtemp string
  | LaunchBrowser nat launch_options
  | BrowserNewPage nat nat
  | PageClose nat
  | BrowserClose nat
  | Rimraf string
  | KillChildProcess nat
  | PoolLog string

text \<open>
  What the world outside the pool answers: the user's \<open>launchPuppeteerFunction\<close> for the
  instance with the given id (\<open>Inr False\<close> is a value that is no Puppeteer browser),
  \<open>browser.newPage()\<close> of an instance for the page with the given number, \<open>fs.mkdtemp\<close> for
  the instance being launched, \<open>browser.close()\<close> and \<open>rimraf\<close>.
\<close>

record pool_env =
  launch_result :: "nat \<Rightarrow> launch_options \<Rightarrow> error + bool"
  newPage_result :: "nat \<Rightarrow> nat \<Rightarrow> error + unit"
  mkdtemp_result :: "nat \<Rightarrow> error + string"
  close_result :: "nat \<Rightarrow> error + unit"
  rimraf_result :: "string \<Rightarrow> error + unit"

record puppeteer_pool =
  reusePages :: bool
  maxOpenPagesPerInstance :: int
  retireInstanceAfterRequestCount :: int
  killInstanceAfterMillis :: int
  recycleDiskCache :: bool
  recycledDiskCacheDirs :: "string list option"
  proxyUrls :: "string list option"
  launchPuppeteerOptions :: "launch_options option"
  browserCounter :: nat
  instances :: "nat \<Rightarrow> puppeteer_instance option"
  activeInstances :: "nat list"
  retiredInstances :: "nat list"
  lastUsedProxyUrlIndex :: nat
  idlePages :: "nat list"
  closedPages :: "nat set"
  pagesToInstancesMap :: "nat \<Rightarrow> nat option"
  pageCounter :: nat
  ops :: "pool_op list"

definition record_op :: "pool_op \<Rightarrow> puppeteer_pool \<Rightarrow> puppeteer_pool" where
  "record_op k p = p\<lparr>ops := ops p @ [k]\<rparr>"

subsection \<open>The constructor\<close>

record pool_options =
  o_reusePages :: "bool option"
  o_maxOpenPagesPerInstance :: "int option"
  o_retireInstanceAfterRequestCount :: "int option"
  o_abortInstanceAfterRequestCount :: "int option"
  o_killInstanceAfterMillis :: "int option"
  o_launchPuppeteerOptions :: "launch_options option"
  o_recycleDiskCache :: "bool option"
  o_proxyUrls :: "string list option"

definition truthy :: "int option \<Rightarrow> bool" where
  "truthy v = (case v of None \<Rightarrow> False | Some n \<Rightarrow> n \<noteq> 0)"

definition default_to :: "'a \<Rightarrow> 'a option \<Rightarrow> 'a" where
  "default_to d v = (case v of None \<Rightarrow> d | Some x \<Rightarrow> x)"

text \<open>
  \<open>recycleDiskCache\<close> is not read from the options: the constructor has the line
  \<open>const recycleDiskCache = false\<close> ("Disabling the feature since tests started failing").
  The proxy URLs are shuffled by the constructor; the model keeps the order given.
\<close>

definition new_PuppeteerPool :: "pool_options \<Rightarrow> error + puppeteer_pool" where
  "new_PuppeteerPool opts =
     (let retire =
            (if \<not> truthy (o_retireInstanceAfterRequestCount opts)
                \<and> truthy (o_abortInstanceAfterRequestCount opts)
             then o_abortInstanceAfterRequestCount opts
             else o_retireInstanceAfterRequestCount opts);
          recycle = False
      in if o_proxyUrls opts = Some []
         then Inl (Error ''Parameter options.proxyUrls of type Array must not be empty'')
         else Inr \<lparr>reusePages = default_to False (o_reusePages opts),
                   maxOpenPagesPerInstance = default_to 50 (o_maxOpenPagesPerInstance opts),
                   retireInstanceAfterRequestCount = default_to 100 retire,
                   killInstanceAfterMillis = default_to (5 * 60 * 1000) (o_killInstanceAfterMillis opts),
                   recycleDiskCache = recycle,
                   recycledDiskCacheDirs = (if recycle then Some [] else None),
                   proxyUrls = o_proxyUrls opts,
                   launchPuppeteerOptions = o_launchPuppeteerOptions opts,
                   browserCounter = 0,
                   instances = (\<lambda>i. None),
                   activeInstances = [],
                   retiredInstances = [],
                   lastUsedProxyUrlIndex = 0,
                   idlePages = [],
                   closedPages = {},
                   pagesToInstancesMap = (\<lambda>page. None),
                   pageCounter = 0,
                   ops = []\<rparr>)"

subsection \<open>Launching\<close>

definition empty_launch_options :: launch_options where
  "empty_launch_options = \<lparr>headless = None, devtools = False, args = [], proxyUrl = None\<rparr>"

text \<open>
  The disk cache directory of a launch ("If requested, use recycled disk cache directory"):
  the first one on the free-list, or a fresh one from \<open>mkdtemp\<close>. Taking from a free-list
  that was never created is a \<open>TypeError\<close>.
\<close>

definition takeDiskCacheDir ::
  "pool_env \<Rightarrow> nat \<Rightarrow> puppeteer_pool \<Rightarrow> (error + string option) \<times> puppeteer_pool" where
  "takeDiskCacheDir penv i p =
     (if recycleDiskCache p then
        (case recycledDiskCacheDirs p of
           None \<Rightarrow> (Inl (TypeError ''recycledDiskCacheDirs is null''), p)
         | Some [] \<Rightarrow>
             (case mkdtemp_result penv i of
                Inl e \<Rightarrow> (Inl e, p)
              | Inr dir \<Rightarrow> (Inr (Some dir), record_op (Mkdtemp dir) p))
         | Some (dir # dirs) \<Rightarrow> (Inr (Some dir), p\<lparr>recycledDiskCacheDirs := Some dirs\<rparr>))
      else (Inr None, p))"

text \<open>The launch options of the next launch: the disk cache argument, then the proxy.\<close>

definition launchOptions :: "string option \<Rightarrow> puppeteer_pool \<Rightarrow> launch_options" where
  "launchOptions diskCacheDir p =
     (let opts = default_to empty_launch_options (launchPuppeteerOptions p);
          opts1 =
            (case diskCacheDir of
               None \<Rightarrow> opts
             | Some dir \<Rightarrow> opts\<lparr>args := args opts @ [''--disk-cache-dir='' @ dir]\<rparr>)
      in case proxyUrls p of
           None \<Rightarrow> opts1
         | Some urls \<Rightarrow>
             opts1\<lparr>proxyUrl :=
               (if urls = [] then None
                else Some (urls ! (lastUsedProxyUrlIndex p mod length urls)))\<rparr>)"

text \<open>
  The pool's own \<open>launchPuppeteerFunction\<close>, for the instance \<open>i\<close> being launched. It answers
  with the settled \<open>browserPromise\<close>.
\<close>

definition launchPuppeteerFunction ::
  "pool_env \<Rightarrow> nat \<Rightarrow> puppeteer_pool \<Rightarrow> (error + browser) \<times> puppeteer_pool" where
  "launchPuppeteerFunction penv i p =
     (case takeDiskCacheDir penv i p of
        (Inl e, p1) \<Rightarrow> (Inl e, p1)
      | (Inr diskCacheDir, p1) \<Rightarrow>
          (let opts = launchOptions diskCacheDir p1;
               p2 =
                 (case proxyUrls p1 of
                    None \<Rightarrow> p1
                  | Some urls \<Rightarrow> p1\<lparr>lastUsedProxyUrlIndex := lastUsedProxyUrlIndex p1 + 1\<rparr>);
               p3 = record_op (LaunchBrowser i opts) p2
           in case launch_result penv i opts of
                Inl e \<Rightarrow> (Inl e, p3)
              | Inr False \<Rightarrow>
                  (Inl (Error ''The custom launchPuppeteerFunction passed to PuppeteerPool must return a promise resolving to a Browser instance.''),
                   p3)
              | Inr True \<Rightarrow> (Inr \<lparr>browser_recycleDiskCacheDir = diskCacheDir\<rparr>, p3)))"

text \<open>
  \<open>_launchInstance\<close>, at time \<open>now\<close>: the new instance gets the next id and is active at once.
  What \<open>_initBrowser\<close> does once the browser promise has settled is \<open>initBrowser\<close>.
\<close>

definition launchInstance :: "pool_env \<Rightarrow> int \<Rightarrow> puppeteer_pool \<Rightarrow> nat \<times> puppeteer_pool" where
  "launchInstance penv now p =
     (let i = browserCounter p;
          p1 = p\<lparr>browserCounter := browserCounter p + 1\<rparr>
      in case launchPuppeteerFunction penv i p1 of
           (promise, p2) \<Rightarrow>
             (let inst = \<lparr>activePages = 0, totalPages = 0, browserPromise = promise,
                          lastPageOpenedAt = now, killed = False, childProcess = False,
                          recycleDiskCacheDir = None\<rparr>
              in (i, p2\<lparr>instances := (instances p2)(i \<mapsto> inst),
                       activeInstances := insort i (activeInstances p2)\<rparr>)))"

definition initBrowser :: "nat \<Rightarrow> puppeteer_pool \<Rightarrow> puppeteer_pool" where
  "initBrowser i p =
     (case instances p i of
        None \<Rightarrow> p
      | Some inst \<Rightarrow>
          (case browserPromise inst of
             Inl err \<Rightarrow>
               (record_op (PoolLog ''browser launch failed'') p)
                 \<lparr>activeInstances := removeAll i (activeInstances p)\<rparr>
           | Inr b \<Rightarrow>
               p\<lparr>instances := (instances p)(i \<mapsto>
                     inst\<lparr>childProcess := True,
                          recycleDiskCacheDir := browser_recycleDiskCacheDir b\<rparr>)\<rparr>))"

subsection \<open>Retiring and counting\<close>

definition retireInstance :: "nat \<Rightarrow> puppeteer_pool \<Rightarrow> puppeteer_pool" where
  "retireInstance i p =
     (if i \<notin> set (activeInstances p) then p
      else p\<lparr>retiredInstances := insort i (removeAll i (retiredInstances p)),
             activeInstances := removeAll i (activeInstances p)\<rparr>)"

definition incrementPageCount :: "int \<Rightarrow> nat \<Rightarrow> puppeteer_pool \<Rightarrow> puppeteer_pool" where
  "incrementPageCount now i p =
     (case instances p i of
        None \<Rightarrow> p
      | Some inst \<Rightarrow>
          (let inst1 = inst\<lparr>lastPageOpenedAt := now, totalPages := totalPages inst + 1\<rparr>;
               p1 = p\<lparr>instances := (instances p)(i \<mapsto> inst1)\<rparr>
           in if retireInstanceAfterRequestCount p \<le> totalPages inst1
              then retireInstance i p1 else p1))"

subsection \<open>\<open>newPage\<close> and \<open>_openNewTab\<close>\<close>

text \<open>
  The decorated \<open>page.close\<close>: the page joins \<open>closedPages\<close>, and a failure of the original
  \<open>close\<close> is caught and logged, so the call never rejects.
\<close>

definition closePage :: "nat \<Rightarrow> puppeteer_pool \<Rightarrow> puppeteer_pool" where
  "closePage page p = record_op (PageClose page) (p\<lparr>closedPages := insert page (closedPages p)\<rparr>)"

definition hasCapacity :: "puppeteer_pool \<Rightarrow> nat \<Rightarrow> bool" where
  "hasCapacity p i =
     (case instances p i of
        None \<Rightarrow> False
      | Some inst \<Rightarrow> activePages inst < maxOpenPagesPerInstance p)"

definition bumpActivePages :: "nat \<Rightarrow> puppeteer_pool \<Rightarrow> puppeteer_pool" where
  "bumpActivePages i p =
     (case instances p i of
        None \<Rightarrow> p
      | Some inst \<Rightarrow> p\<lparr>instances := (instances p)(i \<mapsto> inst\<lparr>activePages := activePages inst + 1\<rparr>)\<rparr>)"

text \<open>
  \<open>_openNewTab\<close>. An instance launched by this call has its \<open>_initBrowser\<close> continuation run
  at \<open>await instance.browserPromise\<close>, before this function's own continuation (it was
  registered first); an instance found in the pool had it run when it was launched.
\<close>

definition openNewTab :: "pool_env \<Rightarrow> int \<Rightarrow> puppeteer_pool \<Rightarrow> (error + nat) \<times> puppeteer_pool" where
  "openNewTab penv now p =
     (case (case find (hasCapacity p) (activeInstances p) of
              Some i \<Rightarrow> (i, False, p)
            | None \<Rightarrow> (case launchInstance penv now p of (i, p1) \<Rightarrow> (i, True, p1))) of
        (i, launched, p1) \<Rightarrow>
          (let p2 = bumpActivePages i (incrementPageCount now i p1);
               p3 = (if launched then initBrowser i p2 else p2)
           in case (case instances p3 i of
                      None \<Rightarrow> Inl (TypeError ''instance is undefined'')
                    | Some inst \<Rightarrow> browserPromise inst) of
                Inl err \<Rightarrow>
                  (Inl err, retireInstance i (record_op (PoolLog ''browser.newPage() failed'') p3))
              | Inr b \<Rightarrow>
                  (let page = pageCounter p3;
                       p4 = record_op (BrowserNewPage i page) p3
                   in case newPage_result penv i page of
                        Inl err \<Rightarrow>
                          (Inl err, retireInstance i (record_op (PoolLog ''browser.newPage() failed'') p4))
                      | Inr u \<Rightarrow>
                          (Inr page,
                           p4\<lparr>pageCounter := page + 1,
                              pagesToInstancesMap := (pagesToInstancesMap p4)(page \<mapsto> i)\<rparr>))))"

text \<open>
  The loop of \<open>newPage\<close> over the idle pages, oldest first; the second argument is the
  queue, from which \<open>shift()\<close> takes the head. It answers with the page it returns, or \<open>None\<close>
  when the queue ran out; a page that \<open>pagesToInstancesMap\<close> does not know makes
  \<open>instance.id\<close> throw.
\<close>

fun reuseIdlePage ::
  "int \<Rightarrow> nat list \<Rightarrow> puppeteer_pool \<Rightarrow> (error + nat option) \<times> puppeteer_pool" where
  "reuseIdlePage now [] p = (Inr None, p\<lparr>idlePages := []\<rparr>)"
| "reuseIdlePage now (idlePage # rest) p =
     (let p1 = p\<lparr>idlePages := rest\<rparr>;
          pageIsNotClosed = idlePage \<notin> closedPages p1
      in case pagesToInstancesMap p1 idlePage of
           None \<Rightarrow> (Inl (TypeError ''instance is undefined''), p1)
         | Some i \<Rightarrow>
             (let instanceIsActive = i \<in> set (activeInstances p1) in
              if pageIsNotClosed \<and> instanceIsActive
              then (Inr (Some idlePage), incrementPageCount now i p1)
              else if pageIsNotClosed \<and> \<not> instanceIsActive
              then reuseIdlePage now rest (closePage idlePage p1)
              else reuseIdlePage now rest p1))"

definition newPage :: "pool_env \<Rightarrow> int \<Rightarrow> puppeteer_pool \<Rightarrow> (error + nat) \<times> puppeteer_pool" where
  "newPage penv now p =
     (case reuseIdlePage now (idlePages p) p of
        (Inl e, p1) \<Rightarrow> (Inl e, p1)
      | (Inr (Some page), p1) \<Rightarrow> (Inr page, p1)
      | (Inr None, p1) \<Rightarrow> openNewTab penv now p1)"

definition recyclePage :: "nat \<Rightarrow> puppeteer_pool \<Rightarrow> puppeteer_pool" where
  "recyclePage page p =
     (if reusePages p then p\<lparr>idlePages := idlePages p @ [page]\<rparr> else closePage page p)"

subsection \<open>Killing an instance, destroying the pool\<close>

text \<open>
  The inner function \<open>recycleDiskCache\<close> of \<open>_killInstance\<close>. Adding to a free-list that was
  never created is a \<open>TypeError\<close>.
\<close>

definition recycleDiskCacheOf :: "nat \<Rightarrow> puppeteer_pool \<Rightarrow> (error + unit) \<times> puppeteer_pool" where
  "recycleDiskCacheOf i p =
     (case instances p i of
        None \<Rightarrow> (Inr (), p)
      | Some inst \<Rightarrow>
          (case recycleDiskCacheDir inst of
             None \<Rightarrow> (Inr (), p)
           | Some dir \<Rightarrow>
               (case recycledDiskCacheDirs p of
                  None \<Rightarrow> (Inl (TypeError ''recycledDiskCacheDirs is null''), p)
                | Some dirs \<Rightarrow>
                    (Inr (),
                     p\<lparr>recycledDiskCacheDirs := Some (dirs @ [dir]),
                       instances := (instances p)(i \<mapsto> inst\<lparr>recycleDiskCacheDir := None\<rparr>)\<rparr>))))"

text \<open>
  \<open>_killInstance\<close> without its timer; an error inside the \<open>try\<close> is caught and logged.
  \<open>killInstance_timeout\<close> is the callback that the timer runs five seconds later.
\<close>

definition killInstance :: "pool_env \<Rightarrow> nat \<Rightarrow> puppeteer_pool \<Rightarrow> puppeteer_pool" where
  "killInstance penv i p =
     (case instances p i of
        None \<Rightarrow> p
      | Some inst \<Rightarrow>
          if killed inst then p
          else
            (let p1 = p\<lparr>retiredInstances := removeAll i (retiredInstances p)\<rparr> in
             case browserPromise inst of
               Inl err \<Rightarrow> record_op (PoolLog ''cannot close the browser instance'') p1
             | Inr b \<Rightarrow>
                 (let p2 = record_op (BrowserClose i)
                             (p1\<lparr>instances := (instances p1)(i \<mapsto> inst\<lparr>killed := True\<rparr>)\<rparr>)
                  in case close_result penv i of
                       Inl err \<Rightarrow> record_op (PoolLog ''cannot close the browser instance'') p2
                     | Inr u \<Rightarrow>
                         (case recycleDiskCacheOf i p2 of
                            (Inl err, p3) \<Rightarrow> record_op (PoolLog ''cannot close the browser instance'') p3
                          | (Inr u', p3) \<Rightarrow> p3))))"

definition killInstance_timeout :: "nat \<Rightarrow> puppeteer_pool \<Rightarrow> (error + unit) \<times> puppeteer_pool" where
  "killInstance_timeout i p =
     (case instances p i of
        None \<Rightarrow> (Inr (), p)
      | Some inst \<Rightarrow>
          recycleDiskCacheOf i (if childProcess inst then record_op (KillChildProcess i) p else p))"

text \<open>\<open>deleteDiskCacheDir\<close>: a failure of \<open>rimraf\<close> is caught and logged as a warning.\<close>

definition deleteDiskCacheDir :: "pool_env \<Rightarrow> string \<Rightarrow> puppeteer_pool \<Rightarrow> puppeteer_pool" where
  "deleteDiskCacheDir penv dir p =
     (case rimraf_result penv dir of
        Inl err \<Rightarrow> record_op (PoolLog ''Cannot delete Chrome disk cache directory'') (record_op (Rimraf dir) p)
      | Inr u \<Rightarrow> record_op (Rimraf dir) p)"

definition markKilled :: "nat \<Rightarrow> puppeteer_pool \<Rightarrow> puppeteer_pool" where
  "markKilled i p =
     (case instances p i of
        None \<Rightarrow> p
      | Some inst \<Rightarrow> p\<lparr>instances := (instances p)(i \<mapsto> inst\<lparr>killed := True\<rparr>)\<rparr>)"

text \<open>
  One of the \<open>closePromises\<close> of \<open>destroy\<close>: the browser is closed and its cache directory, if
  it has one, deleted. The answer says whether the promise resolved.
\<close>

definition closeBrowser :: "pool_env \<Rightarrow> nat \<Rightarrow> puppeteer_pool \<Rightarrow> bool \<times> puppeteer_pool" where
  "closeBrowser penv i p =
     (case instances p i of
        None \<Rightarrow> (False, p)
      | Some inst \<Rightarrow>
          (case browserPromise inst of
             Inl err \<Rightarrow> (False, p)
           | Inr b \<Rightarrow>
               (case close_result penv i of
                  Inl err \<Rightarrow> (False, record_op (BrowserClose i) p)
                | Inr u \<Rightarrow>
                    (case browser_recycleDiskCacheDir b of
                       None \<Rightarrow> (True, record_op (BrowserClose i) p)
                     | Some dir \<Rightarrow> (True, deleteDiskCacheDir penv dir (record_op (BrowserClose i) p))))))"

fun closeBrowsers :: "pool_env \<Rightarrow> nat list \<Rightarrow> puppeteer_pool \<Rightarrow> bool \<times> puppeteer_pool" where
  "closeBrowsers penv [] p = (True, p)"
| "closeBrowsers penv (i # rest) p =
     (case closeBrowser penv i p of
        (ok, p1) \<Rightarrow> (case closeBrowsers penv rest p1 of (oks, p2) \<Rightarrow> (ok \<and> oks, p2)))"

fun deleteDiskCacheDirs :: "pool_env \<Rightarrow> string list \<Rightarrow> puppeteer_pool \<Rightarrow> puppeteer_pool" where
  "deleteDiskCacheDirs penv [] p = p"
| "deleteDiskCacheDirs penv (dir # dirs) p = deleteDiskCacheDirs penv dirs (deleteDiskCacheDir penv dir p)"

text \<open>
  \<open>destroy\<close>: every instance, active ones first, is flagged \<open>killed\<close> and its browser closed.
  Only when all of that succeeded are the directories on the free-list deleted; otherwise
  the failure is logged.
\<close>

definition destroy :: "pool_env \<Rightarrow> puppeteer_pool \<Rightarrow> puppeteer_pool" where
  "destroy penv p =
     (let all_instances = activeInstances p @ retiredInstances p;
          p1 = fold markKilled all_instances p
      in case closeBrowsers penv all_instances p1 of
           (False, p2) \<Rightarrow> record_op (PoolLog ''cannot close the browsers'') p2
         | (True, p2) \<Rightarrow>
             (case recycledDiskCacheDirs p2 of
                None \<Rightarrow> p2
              | Some dirs \<Rightarrow> deleteDiskCacheDirs penv dirs (p2\<lparr>recycledDiskCacheDirs := Some []\<rparr>)))"

section \<open>Construction, and sample surroundings\<close>

text \<open>
  The constructor's options that the model reads (\<open>handleRequestFunction\<close> is required and
  answers through \<open>env\<close>). It throws when neither a list nor a queue is given, takes
  \<open>maxRequestRetries\<close> from the defaults (3) when the option is absent, and starts with
  \<open>handledRequestsCount = 0\<close>.
\<close>

record options =
  opt_requestList :: bool
  opt_requestQueue :: bool
  opt_maxRequestRetries :: "int option"
  opt_maxRequestsPerCrawl :: "int option"
  opt_isFinishedFunction :: bool

definition new_BasicCrawler :: "options \<Rightarrow> error + crawler" where
  "new_BasicCrawler opts =
     (if \<not> opt_requestList opts \<and> \<not> opt_requestQueue opts
      then Inl (Error ''At least one of the parameters options.requestList and options.requestQueue must be provided!'')
      else Inr \<lparr>requestList = opt_requestList opts,
                requestQueue = opt_requestQueue opts,
                maxRequestRetries = (case opt_maxRequestRetries opts of None \<Rightarrow> 3 | Some n \<Rightarrow> n),
                maxRequestsPerCrawl = opt_maxRequestsPerCrawl opts,
                customIsFinishedFunction = opt_isFinishedFunction opts,
                handledRequestsCount = 0,
                autoscaledPool = None,
                isRunningPromise = None,
                isRunning = False,
                rejectOnAbortPromise = NoPromise,
                calls = []\<rparr>)"

definition page1 :: request where
  "page1 = \<lparr>url = ''http://example.com/1'', retryCount = 0, noRetry = False, errorMessages = []\<rparr>"

definition boom :: error where
  "boom = Error ''boom''"

text \<open>
  Surroundings in which every collaborator succeeds: sources that have nothing more to hand
  out, a handler that resolves and leaves the request as it is.
\<close>

definition env_ok :: env where
  "env_ok =
     \<lparr>env_fetchNextRequest = (\<lambda>cs src. Inr None),
      env_addRequest = (\<lambda>cs r forefront. Inr ()),
      env_markRequestHandled = (\<lambda>cs src r. Inr ()),
      env_reclaimRequest = (\<lambda>cs src r. Inr ()),
      env_isEmpty = (\<lambda>cs src. Inr False),
      env_isFinished = (\<lambda>cs src. Inr False),
      env_handledCount = (\<lambda>cs src. Inr 0),
      env_persistState = (\<lambda>cs. Inr ()),
      env_handleRequestFunction = (\<lambda>cs r. (r, Inr ())),
      env_handleFailedRequestFunction = (\<lambda>cs r err. Inr ()),
      env_isFinishedFunction = (\<lambda>cs. Inr False),
      env_poolPause = (\<lambda>cs ms. Inr ()),
      env_poolAbort = (\<lambda>cs. Inr ())\<rparr>"

text \<open>A list that always has \<open>page1\<close> to hand out, and a handler that always throws.\<close>

definition env_failing :: env where
  "env_failing =
     env_ok\<lparr>env_fetchNextRequest := (\<lambda>cs src. Inr (Some page1)),
            env_handleRequestFunction := (\<lambda>cs r. (r, Inl boom))\<rparr>"

definition list_crawler :: crawler where
  "list_crawler =
     \<lparr>requestList = True, requestQueue = False, maxRequestRetries = 3,
      maxRequestsPerCrawl = None, customIsFinishedFunction = False,
      handledRequestsCount = 0, autoscaledPool = None, isRunningPromise = None,
      isRunning = False, rejectOnAbortPromise = NoPromise, calls = []\<rparr>"

definition both_crawler :: crawler where
  "both_crawler = list_crawler\<lparr>requestQueue := True\<rparr>"

text \<open>The calls made between two states of the crawler.\<close>

definition newCalls :: "crawler \<Rightarrow> crawler \<Rightarrow> call list" where
  "newCalls c c' = drop (length (calls c)) (calls c')"

text \<open>
  What \<open>_runTaskFunction\<close> logs when the error handler itself fails, as a function of the
  task's result.
\<close>

definition secondaryErrorLog :: "error + unit \<Rightarrow> call list" where
  "secondaryErrorLog res = (case res of Inl e \<Rightarrow> [Log (ErrorHandlerThrew e)] | Inr u \<Rightarrow> [])"

section \<open>The retry budget, as a property of the calls made\<close>

text \<open>The request a call carries, if any.\<close>

fun call_request :: "call \<Rightarrow> request option" where
  "call_request (AddRequest r forefront) = Some r"
| "call_request (MarkRequestHandled src r) = Some r"
| "call_request (ReclaimRequest src r) = Some r"
| "call_request (HandleRequestFunction r) = Some r"
| "call_request (HandleFailedRequestFunction r e) = Some r"
| "call_request (Log (AddRequestFailed e r)) = Some r"
| "call_request k = None"

text \<open>A call is within the budget \<open>m\<close> when the request it carries has \<open>retryCount \<le> m\<close>.\<close>

definition within_budget :: "int \<Rightarrow> call \<Rightarrow> bool" where
  "within_budget m k = (case call_request k of None \<Rightarrow> True | Some r \<Rightarrow> retryCount r \<le> m)"

text \<open>
  A call of \<open>handleFailedRequestFunction\<close> is justified when its request is flagged \<open>noRetry\<close>
  or has used up the budget.
\<close>

fun failure_justified :: "int \<Rightarrow> call \<Rightarrow> bool" where
  "failure_justified m (HandleFailedRequestFunction r e) = (noRetry r \<or> retryCount r = m)"
| "failure_justified m k = True"

definition retry_invariant :: "int \<Rightarrow> call list \<Rightarrow> bool" where
  "retry_invariant m cs = list_all (\<lambda>k. within_budget m k \<and> failure_justified m k) cs"

text \<open>
  Tasks run one after another, as the pool runs them with \<open>maxConcurrency = 1\<close>; a task that
  rejects ends the crawl.
\<close>

fun runTasks :: "env \<Rightarrow> nat \<Rightarrow> crawler \<Rightarrow> (error + unit) \<times> crawler" where
  "runTasks env 0 c = (Inr (), c)"
| "runTasks env (Suc n) c =
     (case runTaskFunction env c of
        (Inl e, c') \<Rightarrow> (Inl e, c')
      | (Inr u, c') \<Rightarrow> runTasks env n c')"

text \<open>
  What the invariant needs of the surroundings: a source that has only seen calls within the
  budget hands out a request within the budget, and the user's handler does not push
  \<open>retryCount\<close> beyond it.
\<close>

definition sources_respect_budget :: "env \<Rightarrow> int \<Rightarrow> bool" where
  "sources_respect_budget env m =
     (\<forall>cs src r. retry_invariant m cs \<longrightarrow>
        env_fetchNextRequest env cs src = Inr (Some r) \<longrightarrow> retryCount r \<le> m)"

definition handler_respects_budget :: "env \<Rightarrow> int \<Rightarrow> bool" where
  "handler_respects_budget env m =
     (\<forall>cs r. retryCount r \<le> m \<longrightarrow> retryCount (fst (env_handleRequestFunction env cs r)) \<le> m)"

text \<open>
  A source with the single request \<open>page1\<close> that hands back what was reclaimed last, under a
  handler that always throws; and a handler that flags the request \<open>noRetry\<close> and throws.
\<close>

fun pending_step :: "request option \<Rightarrow> call \<Rightarrow> request option" where
  "pending_step p (FetchNextRequest src) = None"
| "pending_step p (ReclaimRequest src r) = Some r"
| "pending_step p k = p"

definition env_retry :: env where
  "env_retry =
     env_ok\<lparr>env_fetchNextRequest := (\<lambda>cs src. Inr (foldl pending_step (Some page1) cs)),
            env_handleRequestFunction := (\<lambda>cs r. (r, Inl boom))\<rparr>"

definition env_giving_up :: env where
  "env_giving_up =
     env_ok\<lparr>env_fetchNextRequest := (\<lambda>cs src. Inr (Some page1)),
            env_handleRequestFunction := (\<lambda>cs r. (r\<lparr>noRetry := True\<rparr>, Inl boom))\<rparr>"

section \<open>The autoscaled pool's use of the two predicates\<close>

text \<open>
  Modelled from the spec: the task loop and the termination test of \<open>AutoscaledPool\<close>
  (autoscaling/autoscaled_pool.js is not among the source files). The spec's section 4.3: the
  ticker "attempts to start new tasks until \<open>currentConcurrency == desiredConcurrency\<close> OR
  \<open>isTaskReadyFunction()\<close> returns false", and "on each tick, if the pool is idle
  (\<open>currentConcurrency == 0\<close>) AND \<open>isFinishedFunction()\<close> returns true, \<open>run()\<close> resolves".
  \<open>pool_maybeStartTask\<close> is one attempt to start a task (it answers whether one was started),
  \<open>pool_checkFinished\<close> the termination test of one tick. The spec does not say what a pool
  does when a predicate rejects; here it then neither starts a task nor resolves.
\<close>

record pool_state =
  currentConcurrency :: nat
  desiredConcurrency :: nat
  runResolved :: bool

definition pool_maybeStartTask :: "env \<Rightarrow> crawler \<Rightarrow> pool_state \<Rightarrow> bool \<times> crawler \<times> pool_state" where
  "pool_maybeStartTask env c p =
     (if currentConcurrency p = desiredConcurrency p then (False, c, p)
      else (case isTaskReadyFunction env c of
              (Inr True, c1) \<Rightarrow> (True, c1, p\<lparr>currentConcurrency := currentConcurrency p + 1\<rparr>)
            | (other, c1) \<Rightarrow> (False, c1, p)))"

definition pool_checkFinished :: "env \<Rightarrow> crawler \<Rightarrow> pool_state \<Rightarrow> crawler \<times> pool_state" where
  "pool_checkFinished env c p =
     (if currentConcurrency p = 0
      then (case isFinishedFunction env c of
              (Inr True, c1) \<Rightarrow> (c1, p\<lparr>runResolved := True\<rparr>)
            | (other, c1) \<Rightarrow> (c1, p))
      else (c, p))"

text \<open>More sample surroundings.\<close>

definition page2 :: request where
  "page2 = \<lparr>url = ''http://example.com/2'', retryCount = 0, noRetry = False, errorMessages = []\<rparr>"

text \<open>The list hands out \<open>page1\<close>, the queue \<open>page2\<close>.\<close>

definition env_both :: env where
  "env_both =
     env_ok\<lparr>env_fetchNextRequest :=
              (\<lambda>cs src. case src of RequestList \<Rightarrow> Inr (Some page1) | RequestQueue \<Rightarrow> Inr (Some page2))\<rparr>"

text \<open>The same, with a queue that refuses every \<open>addRequest\<close>.\<close>

definition env_add_fails :: env where
  "env_add_fails = env_both\<lparr>env_addRequest := (\<lambda>cs r forefront. Inl (Error ''queue is down''))\<rparr>"

text \<open>Stored counts: 7 handled in the queue, 2 in the list.\<close>

definition env_counts :: env where
  "env_counts =
     env_ok\<lparr>env_handledCount := (\<lambda>cs src. case src of RequestList \<Rightarrow> Inr 2 | RequestQueue \<Rightarrow> Inr 7)\<rparr>"

text \<open>A pool whose pause times out.\<close>

definition env_pause_times_out :: env where
  "env_pause_times_out =
     env_ok\<lparr>env_poolPause := (\<lambda>cs ms. Inl (Error ''The pool did not finish in time''))\<rparr>"

text \<open>A list crawler with a limit of \<open>m\<close> requests that has handled \<open>n\<close>; an idle pool.\<close>

definition limit_crawler :: "int \<Rightarrow> int \<Rightarrow> crawler" where
  "limit_crawler m n = list_crawler\<lparr>maxRequestsPerCrawl := Some m, handledRequestsCount := n\<rparr>"

definition idle_pool :: pool_state where
  "idle_pool = \<lparr>currentConcurrency = 0, desiredConcurrency = 1, runResolved = False\<rparr>"

text \<open>
  What \<open>_pauseOnMigration\<close> logs after the pause and after persisting, as functions of how the
  two promises settled.
\<close>

definition pauseTimeoutLog :: "error + unit \<Rightarrow> call list" where
  "pauseTimeoutLog paused = (case paused of Inl e \<Rightarrow> [Log PauseTimedOut] | Inr u \<Rightarrow> [])"

definition persistFailureLog :: "error + unit \<Rightarrow> call list" where
  "persistFailureLog persisted =
     (case persisted of
        Inl err \<Rightarrow>
          [Log (if string_includes (message err) ''Cannot persist state.''
                then PersistInvalidConfig else PersistFailed err)]
      | Inr u \<Rightarrow> [])"

text \<open>A list crawler on which \<open>run\<close> has been called once.\<close>

definition running_crawler :: crawler where
  "running_crawler = snd (run env_ok list_crawler)"

text \<open>A crawler of the abortable class, with a list and a queue, on which \<open>run\<close> has been called once.\<close>

definition running_abortable_crawler :: crawler where
  "running_abortable_crawler = snd (run_abortable env_ok both_crawler)"

section \<open>Tasks in flight at an abort\<close>

text \<open>
  A task in flight: the request as its handler leaves it, the task's source, and what becomes
  of the handler while \<open>abort\<close> waits for the pool: it settles (\<open>Some\<close>), or it is still
  pending when \<open>abort\<close> resumes (\<open>None\<close>).
\<close>

type_synonym in_flight = "request \<times> source \<times> (error + unit) option"

text \<open>
  \<open>abort\<close> with tasks in flight. After \<open>abort_enter\<close> the handlers that settle do so, one after
  another, and their tasks go on; then \<open>abort\<close> resumes; then the tasks whose handler is
  still pending are resumed, their race being settled by \<open>rejectOnAbortPromise\<close> if by
  anything.
\<close>

fun settleHandlers :: "env \<Rightarrow> in_flight list \<Rightarrow> crawler \<Rightarrow> crawler" where
  "settleHandlers env [] c = c"
| "settleHandlers env ((r, src, fate) # ts) c =
     settleHandlers env ts
       (case fate of
          Some settled \<Rightarrow> snd (task_resume env (Some (r, settled)) r src c)
        | None \<Rightarrow> c)"

fun settleRaces :: "env \<Rightarrow> in_flight list \<Rightarrow> crawler \<Rightarrow> crawler" where
  "settleRaces env [] c = c"
| "settleRaces env ((r, src, fate) # ts) c =
     settleRaces env ts
       (case fate of
          Some settled \<Rightarrow> c
        | None \<Rightarrow> snd (task_resume env None r src c))"

definition abortWhileInFlight :: "env \<Rightarrow> in_flight list \<Rightarrow> crawler \<Rightarrow> (error + unit) \<times> crawler" where
  "abortWhileInFlight env tasks c =
     (case abort_enter env c of
        (st, c1) \<Rightarrow>
          (case (case st of
                   AbortFailed e \<Rightarrow> (Inl e, settleHandlers env tasks c1)
                 | AwaitingPoolAbort settled \<Rightarrow> abort_resume settled (settleHandlers env tasks c1)) of
             (res, c2) \<Rightarrow> (res, settleRaces env tasks c2)))"

text \<open>
  The tasks that the claim about \<open>abort\<close> speaks of: the handler rejects while \<open>abort\<close> waits
  (\<open>Some\<close>, with the error), or is still pending when \<open>abort\<close> resumes (\<open>None\<close>).
\<close>

fun unfinished :: "request \<times> source \<times> error option \<Rightarrow> in_flight" where
  "unfinished (r, src, e) = (r, src, map_option Inl e)"

fun isRejecting :: "request \<times> source \<times> error option \<Rightarrow> bool" where
  "isRejecting (r, src, e) = (e \<noteq> None)"

fun isLog :: "call \<Rightarrow> bool" where
  "isLog (Log entry) = True"
| "isLog k = False"

fun reclaimOf :: "request \<times> source \<times> error option \<Rightarrow> call" where
  "reclaimOf (r, src, e) = ReclaimRequest src r"

fun isPresentSource :: "crawler \<Rightarrow> request \<times> source \<times> error option \<Rightarrow> bool" where
  "isPresentSource c (r, src, e) = present c src"

definition abortError :: error where
  "abortError = Error ''BasicCrawler: .abort() function has been called. Aborting the crawler.''"

text \<open>
  \<open>abort\<close> gets as far as its call of \<open>rejectOnAbort\<close>: there is a pool, and the pool's
  \<open>abort()\<close> resolves.
\<close>

definition abortSignals :: "env \<Rightarrow> crawler \<Rightarrow> bool" where
  "abortSignals env c = (autoscaledPool c \<noteq> None \<and> env_poolAbort env (calls c) = Inr ())"

text \<open>The abortable crawler with one task in flight, on \<open>page2\<close> from the queue.\<close>

definition in_flight_crawler :: crawler where
  "in_flight_crawler = snd (task_begin env_both running_abortable_crawler)"

section \<open>Idle pages that can be reused\<close>

text \<open>
  An idle page is live when it is not closed and its instance is active: the test that the
  loop of \<open>newPage\<close> makes. \<open>closeStale\<close> is what the loop does to the pages it passes
  over: those still open are closed.
\<close>

definition liveIdle :: "puppeteer_pool \<Rightarrow> nat \<Rightarrow> bool" where
  "liveIdle p page =
     (page \<notin> closedPages p \<and>
      (case pagesToInstancesMap p page of None \<Rightarrow> False | Some i \<Rightarrow> i \<in> set (activeInstances p)))"

definition isMapped :: "puppeteer_pool \<Rightarrow> nat \<Rightarrow> bool" where
  "isMapped p page = (pagesToInstancesMap p page \<noteq> None)"

fun closeStale :: "nat list \<Rightarrow> puppeteer_pool \<Rightarrow> puppeteer_pool" where
  "closeStale [] p = p"
| "closeStale (page # pages) p =
     closeStale pages (if page \<notin> closedPages p then closePage page p else p)"


text \<open>
  What holds of the instance of a page that \<open>newPage\<close> hands out: it is not killed, and it is
  active, or it has just been retired for having reached \<open>retireInstanceAfterRequestCount\<close>.
\<close>

definition activeOrRetiredAtLimit :: "puppeteer_pool \<Rightarrow> nat \<Rightarrow> bool" where
  "activeOrRetiredAtLimit p i =
     (case instances p i of
        None \<Rightarrow> False
      | Some inst \<Rightarrow>
          \<not> killed inst \<and>
          (i \<in> set (activeInstances p) \<or>
           (i \<in> set (retiredInstances p) \<and> retireInstanceAfterRequestCount p \<le> totalPages inst)))"

text \<open>
  A pool is well formed when every idle page is known to \<open>pagesToInstancesMap\<close> and every
  active instance exists, has an id below the counter and is not killed.
\<close>

definition isLiveInstance :: "puppeteer_pool \<Rightarrow> nat \<Rightarrow> bool" where
  "isLiveInstance p i =
     (i < browserCounter p \<and>
      (case instances p i of None \<Rightarrow> False | Some inst \<Rightarrow> \<not> killed inst))"

definition pool_wf :: "puppeteer_pool \<Rightarrow> bool" where
  "pool_wf p =
     (list_all (isMapped p) (idlePages p) \<and> list_all (isLiveInstance p) (activeInstances p))"

subsection \<open>Pools to run\<close>

text \<open>
  A world in which every launch, every new tab, every close and every deletion succeeds; the
  options that leave everything to the defaults; and the pool that the constructor builds,
  when it builds one.
\<close>

definition penv_ok :: pool_env where
  "penv_ok =
     \<lparr>launch_result = (\<lambda>i opts. Inr True),
      newPage_result = (\<lambda>i page. Inr ()),
      mkdtemp_result = (\<lambda>i. Inr ''/tmp/puppeteer_disk_cache-0''),
      close_result = (\<lambda>i. Inr ()),
      rimraf_result = (\<lambda>dir. Inr ())\<rparr>"

definition no_pool_options :: pool_options where
  "no_pool_options =
     \<lparr>o_reusePages = None, o_maxOpenPagesPerInstance = None,
      o_retireInstanceAfterRequestCount = None, o_abortInstanceAfterRequestCount = None,
      o_killInstanceAfterMillis = None, o_launchPuppeteerOptions = None,
      o_recycleDiskCache = None, o_proxyUrls = None\<rparr>"

definition pool_of :: "pool_options \<Rightarrow> puppeteer_pool" where
  "pool_of opts = (case new_PuppeteerPool opts of Inr p \<Rightarrow> p)"




subsection \<open>Using a pool\<close>

text \<open>
  A use of a pool is a sequence of calls of its methods and of the callbacks it registers:
  \<open>newPage\<close> at a given time, \<open>recyclePage\<close>, the \<open>disconnected\<close> event of a browser
  (\<open>_retireInstance\<close>), \<open>_killInstance\<close> with the callback of its timer, and \<open>destroy\<close>.
\<close>

datatype pool_call =
    NewPage int
  | RecyclePage nat
  | RetireInstance nat
  | KillInstance nat
  | KillInstanceTimeout nat
  | Destroy

fun pool_step :: "pool_env \<Rightarrow> pool_call \<Rightarrow> puppeteer_pool \<Rightarrow> puppeteer_pool" where
  "pool_step penv (NewPage now) p = snd (newPage penv now p)"
| "pool_step penv (RecyclePage page) p = recyclePage page p"
| "pool_step penv (RetireInstance i) p = retireInstance i p"
| "pool_step penv (KillInstance i) p = killInstance penv i p"
| "pool_step penv (KillInstanceTimeout i) p = snd (killInstance_timeout i p)"
| "pool_step penv Destroy p = destroy penv p"

definition runPool :: "pool_env \<Rightarrow> pool_call list \<Rightarrow> puppeteer_pool \<Rightarrow> puppeteer_pool" where
  "runPool penv cs p = fold (pool_step penv) cs p"

text \<open>
  The operations that show disk-cache recycling at work: a directory is created or deleted,
  or a browser is launched with other arguments than the ones the user gave (the only
  argument the pool ever adds is \<open>--disk-cache-dir\<close>).
\<close>

definition isDiskCacheOp :: "launch_options option \<Rightarrow> pool_op \<Rightarrow> bool" where
  "isDiskCacheOp userOptions k =
     (case k of
        Mkdtemp dir \<Rightarrow> True
      | Rimraf dir \<Rightarrow> True
      | LaunchBrowser i opts \<Rightarrow> args opts \<noteq> args (default_to empty_launch_options userOptions)
      | _ \<Rightarrow> False)"

definition recyclingOff :: "puppeteer_pool \<Rightarrow> bool" where
  "recyclingOff p =
     (recycledDiskCacheDirs p = None \<and>
      list_all (Not \<circ> isDiskCacheOp (launchPuppeteerOptions p)) (ops p))"

text \<open>No instance of the pool, and no browser of an instance, has a disk cache directory.\<close>

definition hasNoDiskCacheDir :: "puppeteer_instance \<Rightarrow> bool" where
  "hasNoDiskCacheDir inst =
     (recycleDiskCacheDir inst = None \<and>
      (case browserPromise inst of Inl err \<Rightarrow> True | Inr b \<Rightarrow> browser_recycleDiskCacheDir b = None))"

definition noDiskCache :: "puppeteer_pool \<Rightarrow> bool" where
  "noDiskCache p =
     (\<not> recycleDiskCache p \<and> recyclingOff p \<and>
      (\<forall>i inst. instances p i = Some inst \<longrightarrow> hasNoDiskCacheDir inst))"

text \<open>
  Options that ask for recycling on a headful pool, with every instance retired after its
  first page.
\<close>

definition headful_options :: launch_options where
  "headful_options = empty_launch_options\<lparr>headless := Some False\<rparr>"

definition recycling_options :: pool_options where
  "recycling_options =
     no_pool_options\<lparr>o_recycleDiskCache := Some True,
                     o_launchPuppeteerOptions := Some headful_options,
                     o_retireInstanceAfterRequestCount := Some 1\<rparr>"

subsection \<open>Proper use of a pool\<close>

text \<open>
  What the code itself and a well-behaved user do with a pool that has not been destroyed:
  the pages given to \<open>recyclePage\<close> are pages the pool has handed out (the ones
  \<open>pagesToInstancesMap\<close> knows), and \<open>_killInstance\<close> is applied to instances that are not
  active: \<open>_killRetiredInstances\<close> and the timer of the \<open>targetdestroyed\<close> listener apply it
  to instances they found in \<open>retiredInstances\<close>.
\<close>

fun properCall :: "puppeteer_pool \<Rightarrow> pool_call \<Rightarrow> bool" where
  "properCall p (RecyclePage page) = isMapped p page"
| "properCall p (KillInstance i) = (i \<notin> set (activeInstances p))"
| "properCall p Destroy = False"
| "properCall p c = True"


text \<open>
  What proper use maintains: the pool is well formed, and every retired instance has an id
  below the counter and is not active.
\<close>

definition isRetiredInstance :: "puppeteer_pool \<Rightarrow> nat \<Rightarrow> bool" where
  "isRetiredInstance p i = (i < browserCounter p \<and> i \<notin> set (activeInstances p))"

definition pool_inv :: "puppeteer_pool \<Rightarrow> bool" where
  "pool_inv p = (pool_wf p \<and> list_all (isRetiredInstance p) (retiredInstances p))"


section \<open>Properties of BasicCrawler\<close>

subsection \<open>Frame lemmas\<close>

lemma present_calls [simp]: "present (c\<lparr>calls := cs\<rparr>) src = present c src"
  by (simp add: present_def split: source.splits)

lemma present_handledRequestsCount [simp]:
  "present (c\<lparr>handledRequestsCount := n\<rparr>) src = present c src"
  by (simp add: present_def split: source.splits)

lemma fetchNextRequest_frame:
  assumes "fetchNextRequest env c = (res, c')"
  shows "c' = c\<lparr>calls := calls c'\<rparr>"
  using assms
  by (auto simp: fetchNextRequest_def list_fetchNextRequest_def queue_fetchNextRequest_def
      queue_addRequest_def reclaimRequest_def markRequestHandled_def emit_def
      split: if_splits sum.splits prod.splits option.splits)

lemma fetchNextRequest_present:
  assumes "fetchNextRequest env c = (Inr r, c')"
  shows "present c' (taskSource c)"
  using assms
  by (auto simp: fetchNextRequest_def list_fetchNextRequest_def queue_fetchNextRequest_def
      queue_addRequest_def reclaimRequest_def markRequestHandled_def emit_def present_def taskSource_def
      split: if_splits sum.splits prod.splits option.splits source.splits)

subsection \<open>Failure of the user's handler\<close>

lemma errorHandler_effect:
  assumes "present c src"
  shows "(case requestFunctionErrorHandler env err r src c of
      (res, r', c') \<Rightarrow>
        errorMessages r' = errorMessages r @ [message err] \<and>
        url r' = url r \<and> noRetry r' = noRetry r \<and>
        c' = c\<lparr>calls := calls c', handledRequestsCount := handledRequestsCount c'\<rparr> \<and>
        (if \<not> noRetry r \<and> retryCount r < maxRequestRetries c
         then retryCount r' = retryCount r + 1 \<and>
              calls c' = calls c @ [Log (HandlerFailedReclaiming err (url r) (retryCount r + 1)), ReclaimRequest src r'] \<and>
              handledRequestsCount c' = handledRequestsCount c \<and>
              res = env_reclaimRequest env (calls c @ [Log (HandlerFailedReclaiming err (url r) (retryCount r + 1))]) src r'
         else retryCount r' = retryCount r \<and>
              handledRequestsCount c' = handledRequestsCount c + 1 \<and>
              (case env_markRequestHandled env (calls c) src r' of
                 Inr u \<Rightarrow> calls c' = calls c @ [MarkRequestHandled src r', HandleFailedRequestFunction r' err] \<and>
                    res = env_handleFailedRequestFunction env (calls c @ [MarkRequestHandled src r']) r' err
               | Inl e \<Rightarrow> calls c' = calls c @ [MarkRequestHandled src r'] \<and> res = Inl e)))"
  using assms
  by (auto simp: requestFunctionErrorHandler_def pushErrorMessage_def Let_def reclaimRequest_def
      markRequestHandled_def handleFailedRequestFunction_def emit_def split: sum.splits prod.splits)

text \<open>
  Claim C1. When the handler fails for a fetched request (it throws or its promise rejects
  with \<open>err\<close>, having left the request as \<open>r\<close>), the task appends the message of \<open>err\<close> to
  the request's \<open>errorMessages\<close>. Then, if \<open>noRetry\<close> is false and \<open>retryCount\<close> is below
  \<open>maxRequestRetries\<close>, it increments \<open>retryCount\<close> and reclaims the request to its source,
  leaving \<open>handledRequestsCount\<close> alone. Otherwise it increments \<open>handledRequestsCount\<close>, marks
  the request handled in its source and, once the source has accepted that, invokes
  \<open>handleFailedRequestFunction\<close> with the request and the error. These are the only calls the
  task makes after the handler, but for the log entry of an error handler that failed itself.
\<close>

theorem C1_handler_failure:
  assumes fetched: "fetchNextRequest env c0 = (Inr (Some r0), c1)"
    and failed: "env_handleRequestFunction env (calls c1) r0 = (r, Inl err)"
  shows "case runTaskFunction env c0 of (res, c') \<Rightarrow>
     (let src = taskSource c0;
          r1 = r\<lparr>errorMessages := errorMessages r @ [message err]\<rparr>;
          r2 = r1\<lparr>retryCount := retryCount r + 1\<rparr>
      in if \<not> noRetry r \<and> retryCount r < maxRequestRetries c0 then
           newCalls c1 c' =
             [HandleRequestFunction r0,
              Log (HandlerFailedReclaiming err (url r) (retryCount r + 1)),
              ReclaimRequest src r2] @ secondaryErrorLog res \<and>
           handledRequestsCount c' = handledRequestsCount c0
         else
           handledRequestsCount c' = handledRequestsCount c0 + 1 \<and>
           (case env_markRequestHandled env (calls c1 @ [HandleRequestFunction r0]) src r1 of
              Inr u \<Rightarrow>
                newCalls c1 c' =
                  [HandleRequestFunction r0, MarkRequestHandled src r1,
                   HandleFailedRequestFunction r1 err] @ secondaryErrorLog res
            | Inl e \<Rightarrow>
                newCalls c1 c' =
                  [HandleRequestFunction r0, MarkRequestHandled src r1,
                   Log (ErrorHandlerThrew e)] \<and>
                res = Inl e))"
proof -
  have frame: "c1 = c0\<lparr>calls := calls c1\<rparr>"
    using fetched by (rule fetchNextRequest_frame)
  have pres: "present c1 (taskSource c0)"
    using fetched by (rule fetchNextRequest_present)
  have fields: "maxRequestRetries c1 = maxRequestRetries c0"
    "handledRequestsCount c1 = handledRequestsCount c0"
    by (subst frame, simp)+
  have run: "runTaskFunction env c0 =
      handleError env err r (taskSource c0) (emit (HandleRequestFunction r0) c1)"
    using fetched failed by (simp add: runTaskFunction_def Let_def)
  show ?thesis
    using pres fields
    by (auto simp: run handleError_def requestFunctionErrorHandler_def pushErrorMessage_def
        Let_def reclaimRequest_def markRequestHandled_def handleFailedRequestFunction_def
        emit_def newCalls_def secondaryErrorLog_def split: sum.splits prod.splits)
qed

text \<open>The first failure of a fresh request, computed.\<close>

lemma run_failing_eval:
  "runTaskFunction env_failing list_crawler =
     (Inr (),
      list_crawler\<lparr>calls :=
        [FetchNextRequest RequestList,
         HandleRequestFunction page1,
         Log (HandlerFailedReclaiming boom ''http://example.com/1'' 1),
         ReclaimRequest RequestList (page1\<lparr>errorMessages := [''boom''], retryCount := 1\<rparr>)]\<rparr>)"
  by (simp add: runTaskFunction_def fetchNextRequest_def list_fetchNextRequest_def handleError_def
      requestFunctionErrorHandler_def pushErrorMessage_def Let_def reclaimRequest_def present_def
      taskSource_def emit_def env_failing_def env_ok_def list_crawler_def page1_def boom_def)

theorem C1_handler_failure_witness:
  "fetchNextRequest env_failing list_crawler =
     (Inr (Some page1), emit (FetchNextRequest RequestList) list_crawler) \<and>
   env_handleRequestFunction env_failing
     (calls (emit (FetchNextRequest RequestList) list_crawler)) page1 = (page1, Inl boom) \<and>
   (case runTaskFunction env_failing list_crawler of
      (res, c') \<Rightarrow>
        newCalls (emit (FetchNextRequest RequestList) list_crawler) c' =
          [HandleRequestFunction page1,
           Log (HandlerFailedReclaiming boom ''http://example.com/1'' 1),
           ReclaimRequest RequestList (page1\<lparr>errorMessages := [''boom''], retryCount := 1\<rparr>)]
          @ secondaryErrorLog res \<and>
        handledRequestsCount c' = 0)"
proof -
  have fetched: "fetchNextRequest env_failing list_crawler =
      (Inr (Some page1), emit (FetchNextRequest RequestList) list_crawler)"
    by (simp add: fetchNextRequest_def list_fetchNextRequest_def env_failing_def env_ok_def
        list_crawler_def emit_def)
  have failed: "env_handleRequestFunction env_failing
      (calls (emit (FetchNextRequest RequestList) list_crawler)) page1 = (page1, Inl boom)"
    by (simp add: env_failing_def env_ok_def)
  have "taskSource list_crawler = RequestList" "maxRequestRetries list_crawler = 3"
    "handledRequestsCount list_crawler = 0" "retryCount page1 = 0" "\<not> noRetry page1"
    "url page1 = ''http://example.com/1''" "errorMessages page1 = []" "message boom = ''boom''"
    by (simp_all add: taskSource_def list_crawler_def page1_def boom_def)
  with C1_handler_failure [OF fetched failed] fetched failed show ?thesis
    by (simp add: Let_def split: prod.splits)
qed

subsection \<open>The retry budget\<close>

lemma retry_invariant_append [simp]:
  "retry_invariant m (cs @ ds) = (retry_invariant m cs \<and> retry_invariant m ds)"
  by (simp add: retry_invariant_def)

lemma retry_invariant_Nil [simp]: "retry_invariant m []"
  by (simp add: retry_invariant_def)

lemma retry_invariant_Cons [simp]:
  "retry_invariant m (k # cs) = (within_budget m k \<and> failure_justified m k \<and> retry_invariant m cs)"
  by (simp add: retry_invariant_def)

lemma errorHandler_invariant:
  assumes "retryCount r \<le> maxRequestRetries c" and "retry_invariant (maxRequestRetries c) (calls c)"
  shows "case requestFunctionErrorHandler env err r src c of
     (res, r', c') \<Rightarrow>
       retry_invariant (maxRequestRetries c) (calls c') \<and>
       maxRequestRetries c' = maxRequestRetries c"
  using assms
  by (auto simp: requestFunctionErrorHandler_def pushErrorMessage_def Let_def reclaimRequest_def
      markRequestHandled_def handleFailedRequestFunction_def emit_def within_budget_def
      split: sum.splits prod.splits)

lemma handleError_invariant:
  assumes "retryCount r \<le> maxRequestRetries c" and "retry_invariant (maxRequestRetries c) (calls c)"
  shows "case handleError env err r src c of
     (res, c') \<Rightarrow>
       retry_invariant (maxRequestRetries c) (calls c') \<and>
       maxRequestRetries c' = maxRequestRetries c"
  using errorHandler_invariant [OF assms, of env err src]
  by (auto simp: handleError_def emit_def within_budget_def split: sum.splits prod.splits)

lemma list_fetch_invariant:
  assumes "list_fetchNextRequest env c = (res, c1)"
    and "sources_respect_budget env m" and "retry_invariant m (calls c)"
  shows "retry_invariant m (calls c1) \<and> maxRequestRetries c1 = maxRequestRetries c \<and>
         (\<forall>r. res = Inr (Some r) \<longrightarrow> retryCount r \<le> m)"
  using assms
  by (auto simp: list_fetchNextRequest_def sources_respect_budget_def emit_def within_budget_def
      split: if_splits)

lemma queue_fetch_invariant:
  assumes "queue_fetchNextRequest env c = (res, c1)"
    and "sources_respect_budget env m" and "retry_invariant m (calls c)"
  shows "retry_invariant m (calls c1) \<and> maxRequestRetries c1 = maxRequestRetries c \<and>
         (\<forall>r. res = Inr (Some r) \<longrightarrow> retryCount r \<le> m)"
  using assms
  by (auto simp: queue_fetchNextRequest_def sources_respect_budget_def emit_def within_budget_def
      split: if_splits)

lemma queue_add_invariant:
  assumes "queue_addRequest env r forefront c = (res, c1)"
    and "retryCount r \<le> m" and "retry_invariant m (calls c)"
  shows "retry_invariant m (calls c1) \<and> maxRequestRetries c1 = maxRequestRetries c"
  using assms
  by (auto simp: queue_addRequest_def emit_def within_budget_def split: if_splits)

lemma reclaim_invariant:
  assumes "reclaimRequest env src r c = (res, c1)"
    and "retryCount r \<le> m" and "retry_invariant m (calls c)"
  shows "retry_invariant m (calls c1) \<and> maxRequestRetries c1 = maxRequestRetries c"
  using assms
  by (auto simp: reclaimRequest_def emit_def within_budget_def split: if_splits)

lemma mark_invariant:
  assumes "markRequestHandled env src r c = (res, c1)"
    and "retryCount r \<le> m" and "retry_invariant m (calls c)"
  shows "retry_invariant m (calls c1) \<and> maxRequestRetries c1 = maxRequestRetries c"
  using assms
  by (auto simp: markRequestHandled_def emit_def within_budget_def split: if_splits)

lemma fetchNextRequest_invariant:
  assumes f: "fetchNextRequest env c = (res, c')"
    and src: "sources_respect_budget env m"
    and inv: "retry_invariant m (calls c)"
  shows "retry_invariant m (calls c') \<and> maxRequestRetries c' = maxRequestRetries c \<and>
         (\<forall>r. res = Inr (Some r) \<longrightarrow> retryCount r \<le> m)"
proof (cases "requestList c")
  case False
  then have "queue_fetchNextRequest env c = (res, c')"
    using f by (simp add: fetchNextRequest_def)
  then show ?thesis
    using src inv by (rule queue_fetch_invariant)
next
  case True
  obtain lres c1 where l: "list_fetchNextRequest env c = (lres, c1)"
    by (cases "list_fetchNextRequest env c")
  note l1 = list_fetch_invariant [OF l src inv]
  have rq: "requestQueue c1 = requestQueue c"
    using l by (auto simp: list_fetchNextRequest_def emit_def split: if_splits)
  show ?thesis
  proof (cases lres)
    case (Inl e)
    then show ?thesis using f True l l1 by (simp add: fetchNextRequest_def)
  next
    case (Inr request)
    show ?thesis
    proof (cases "requestQueue c1")
      case False
      then show ?thesis using f True l l1 Inr by (simp add: fetchNextRequest_def)
    next
      case q: True
      show ?thesis
      proof (cases request)
        case None
        then have "queue_fetchNextRequest env c1 = (res, c')"
          using f True l Inr q by (simp add: fetchNextRequest_def)
        from queue_fetch_invariant [OF this src] l1 show ?thesis by simp
      next
        case (Some r)
        have rb: "retryCount r \<le> m" using l1 Inr Some by simp
        obtain ares c2 where a: "queue_addRequest env r True c1 = (ares, c2)"
          by (cases "queue_addRequest env r True c1")
        have a1: "retry_invariant m (calls c2) \<and> maxRequestRetries c2 = maxRequestRetries c1"
          using queue_add_invariant [OF a rb] l1 by simp
        show ?thesis
        proof (cases ares)
          case (Inl err)
          obtain rres c3 where r3: "reclaimRequest env RequestList r (emit (Log (AddRequestFailed err r)) c2) = (rres, c3)"
            by (cases "reclaimRequest env RequestList r (emit (Log (AddRequestFailed err r)) c2)")
          have "retry_invariant m (calls (emit (Log (AddRequestFailed err r)) c2))"
            using a1 rb by (simp add: emit_def within_budget_def)
          from reclaim_invariant [OF r3 rb this]
          have "retry_invariant m (calls c3) \<and> maxRequestRetries c3 = maxRequestRetries c"
            using a1 l1 by (simp add: emit_def)
          moreover have "c' = c3 \<and> (\<forall>x. res \<noteq> Inr (Some x))"
            using f True l Inr q Some a Inl r3
            by (auto simp: fetchNextRequest_def split: sum.splits)
          ultimately show ?thesis by simp
        next
          case ok: (Inr u)
          obtain nres c3 where n3: "queue_fetchNextRequest env c2 = (nres, c3)"
            by (cases "queue_fetchNextRequest env c2")
          obtain hres c4 where h4: "markRequestHandled env RequestList r c3 = (hres, c4)"
            by (cases "markRequestHandled env RequestList r c3")
          note n1 = queue_fetch_invariant [OF n3 src conjunct1 [OF a1]]
          have h1: "retry_invariant m (calls c4) \<and> maxRequestRetries c4 = maxRequestRetries c3"
            using mark_invariant [OF h4 rb] n1 by simp
          have "c' = c4 \<and> (\<forall>x. res = Inr (Some x) \<longrightarrow> nres = Inr (Some x))"
            using f True l Inr q Some a ok n3 h4
            by (auto simp: fetchNextRequest_def split: sum.splits)
          then show ?thesis using h1 n1 a1 l1 by auto
        qed
      qed
    qed
  qed
qed

lemma runTaskFunction_invariant:
  assumes src: "sources_respect_budget env (maxRequestRetries c)"
    and h: "handler_respects_budget env (maxRequestRetries c)"
    and inv: "retry_invariant (maxRequestRetries c) (calls c)"
    and run: "runTaskFunction env c = (res, c')"
  shows "retry_invariant (maxRequestRetries c) (calls c') \<and> maxRequestRetries c' = maxRequestRetries c"
proof -
  let ?m = "maxRequestRetries c"
  obtain fres c1 where f: "fetchNextRequest env c = (fres, c1)"
    by (cases "fetchNextRequest env c")
  note f1 = fetchNextRequest_invariant [OF f src inv]
  show ?thesis
  proof (cases fres)
    case (Inl e)
    then show ?thesis using run f f1 by (simp add: runTaskFunction_def)
  next
    case (Inr request)
    show ?thesis
    proof (cases request)
      case None
      then show ?thesis using run f f1 Inr by (simp add: runTaskFunction_def)
    next
      case (Some r)
      have rb: "retryCount r \<le> ?m" using f1 Inr Some by simp
      obtain r' outcome where hr: "env_handleRequestFunction env (calls c1) r = (r', outcome)"
        by (cases "env_handleRequestFunction env (calls c1) r")
      have "retryCount (fst (env_handleRequestFunction env (calls c1) r)) \<le> ?m"
        using h rb unfolding handler_respects_budget_def by blast
      then have rb': "retryCount r' \<le> ?m"
        using hr by simp
      let ?c2 = "emit (HandleRequestFunction r) c1"
      have inv2: "retry_invariant (maxRequestRetries ?c2) (calls ?c2)" and m2: "maxRequestRetries ?c2 = ?m"
        using f1 rb by (simp_all add: emit_def within_budget_def)
      show ?thesis
      proof (cases outcome)
        case (Inl err)
        then have "runTaskFunction env c = handleError env err r' (taskSource c) ?c2"
          using f Inr Some hr by (simp add: runTaskFunction_def Let_def)
        with handleError_invariant [of r' ?c2 env err "taskSource c"] rb' inv2 m2 run
        show ?thesis by simp
      next
        case ok: (Inr u)
        obtain mres c3 where mk: "markRequestHandled env (taskSource c) r' ?c2 = (mres, c3)"
          by (cases "markRequestHandled env (taskSource c) r' ?c2")
        have m3: "retry_invariant ?m (calls c3) \<and> maxRequestRetries c3 = ?m"
          using mark_invariant [OF mk rb'] inv2 m2 by simp
        show ?thesis
        proof (cases mres)
          case (Inl err)
          then have "runTaskFunction env c = handleError env err r' (taskSource c) c3"
            using f Inr Some hr ok mk by (simp add: runTaskFunction_def Let_def)
          with handleError_invariant [of r' c3 env err "taskSource c"] rb' m3 run
          show ?thesis by simp
        next
          case (Inr u')
          then have "runTaskFunction env c = (Inr (), c3\<lparr>handledRequestsCount := handledRequestsCount c3 + 1\<rparr>)"
            using f \<open>fres = Inr request\<close> Some hr ok mk by (simp add: runTaskFunction_def Let_def)
          then show ?thesis using run m3 by auto
        qed
      qed
    qed
  qed
qed

text \<open>
  Claim C2, as amended. Let tasks run one after another on a crawler whose calls so far are
  within the budget \<open>maxRequestRetries\<close>, with sources and a handler that respect the budget.
  Then every request the crawler passes to a collaborator has \<open>retryCount \<le> maxRequestRetries\<close>,
  and every call of \<open>handleFailedRequestFunction\<close> is for a request whose \<open>noRetry\<close> is true or
  whose \<open>retryCount\<close> equals \<open>maxRequestRetries\<close>.
\<close>

theorem C2_retry_budget:
  assumes "sources_respect_budget env (maxRequestRetries c)"
    and "handler_respects_budget env (maxRequestRetries c)"
    and "retry_invariant (maxRequestRetries c) (calls c)"
  shows "retry_invariant (maxRequestRetries c) (calls (snd (runTasks env n c)))"
  using assms
proof (induction n arbitrary: c)
  case 0
  then show ?case by simp
next
  case (Suc n)
  obtain res c' where run: "runTaskFunction env c = (res, c')"
    by (cases "runTaskFunction env c")
  note step = runTaskFunction_invariant [OF Suc.prems(1) Suc.prems(2) Suc.prems(3) run]
  show ?case
  proof (cases res)
    case (Inl e)
    then show ?thesis using run step by simp
  next
    case (Inr u)
    have "retry_invariant (maxRequestRetries c') (calls (snd (runTasks env n c')))"
      using Suc.IH [of c'] Suc.prems step by simp
    then show ?thesis using run Inr step by simp
  qed
qed

lemma pending_within_budget:
  assumes "retry_invariant m cs" and "case p of None \<Rightarrow> True | Some r \<Rightarrow> retryCount r \<le> m"
    and "foldl pending_step p cs = Some r"
  shows "retryCount r \<le> m"
  using assms
proof (induction cs arbitrary: p)
  case Nil
  then show ?case by simp
next
  case (Cons k cs)
  have "case pending_step p k of None \<Rightarrow> True | Some r \<Rightarrow> retryCount r \<le> m"
    using Cons.prems(1,2) by (cases k) (simp_all add: within_budget_def)
  with Cons.IH [of "pending_step p k"] Cons.prems show ?case by simp
qed

lemma env_retry_sources: "sources_respect_budget env_retry 3"
  unfolding sources_respect_budget_def
proof (intro allI impI)
  fix cs src r
  assume inv: "retry_invariant 3 cs" and "env_fetchNextRequest env_retry cs src = Inr (Some r)"
  then have f: "foldl pending_step (Some page1) cs = Some r"
    by (simp add: env_retry_def env_ok_def)
  have p: "case Some page1 of None \<Rightarrow> True | Some r \<Rightarrow> retryCount r \<le> 3"
    by (simp add: page1_def)
  from pending_within_budget [OF inv p f] show "retryCount r \<le> 3" .
qed

lemma env_retry_handler: "handler_respects_budget env_retry 3"
  by (simp add: handler_respects_budget_def env_retry_def env_ok_def)

text \<open>
  The retry scenario of the tests: one request, a handler that always throws, three retries.
  The handler runs four times, the request ends with four messages and \<open>retryCount = 3\<close>, and
  \<open>handleFailedRequestFunction\<close> is called once.
\<close>

lemma retry_scenario:
  "runTasks env_retry 5 list_crawler =
     (Inr (),
      list_crawler\<lparr>handledRequestsCount := 1,
        calls :=
          [FetchNextRequest RequestList, HandleRequestFunction page1,
           Log (HandlerFailedReclaiming boom ''http://example.com/1'' 1),
           ReclaimRequest RequestList (page1\<lparr>retryCount := 1, errorMessages := [''boom'']\<rparr>),
           FetchNextRequest RequestList,
           HandleRequestFunction (page1\<lparr>retryCount := 1, errorMessages := [''boom'']\<rparr>),
           Log (HandlerFailedReclaiming boom ''http://example.com/1'' 2),
           ReclaimRequest RequestList (page1\<lparr>retryCount := 2, errorMessages := [''boom'', ''boom'']\<rparr>),
           FetchNextRequest RequestList,
           HandleRequestFunction (page1\<lparr>retryCount := 2, errorMessages := [''boom'', ''boom'']\<rparr>),
           Log (HandlerFailedReclaiming boom ''http://example.com/1'' 3),
           ReclaimRequest RequestList (page1\<lparr>retryCount := 3, errorMessages := [''boom'', ''boom'', ''boom'']\<rparr>),
           FetchNextRequest RequestList,
           HandleRequestFunction (page1\<lparr>retryCount := 3, errorMessages := [''boom'', ''boom'', ''boom'']\<rparr>),
           MarkRequestHandled RequestList
             (page1\<lparr>retryCount := 3, errorMessages := [''boom'', ''boom'', ''boom'', ''boom'']\<rparr>),
           HandleFailedRequestFunction
             (page1\<lparr>retryCount := 3, errorMessages := [''boom'', ''boom'', ''boom'', ''boom'']\<rparr>) boom,
           FetchNextRequest RequestList]\<rparr>)"
  by (simp add: eval_nat_numeral runTaskFunction_def fetchNextRequest_def list_fetchNextRequest_def
      handleError_def requestFunctionErrorHandler_def pushErrorMessage_def Let_def reclaimRequest_def
      markRequestHandled_def handleFailedRequestFunction_def present_def taskSource_def emit_def
      env_retry_def env_ok_def list_crawler_def page1_def boom_def)

theorem C2_retry_budget_witness:
  "sources_respect_budget env_retry (maxRequestRetries list_crawler) \<and>
   handler_respects_budget env_retry (maxRequestRetries list_crawler) \<and>
   retry_invariant (maxRequestRetries list_crawler) (calls list_crawler) \<and>
   retry_invariant 3 (calls (snd (runTasks env_retry 5 list_crawler)))"
proof -
  have m: "maxRequestRetries list_crawler = 3" and cs: "calls list_crawler = []"
    by (simp_all add: list_crawler_def)
  have h1: "sources_respect_budget env_retry (maxRequestRetries list_crawler)"
    using env_retry_sources by (simp add: m)
  have h2: "handler_respects_budget env_retry (maxRequestRetries list_crawler)"
    using env_retry_handler by (simp add: m)
  have h3: "retry_invariant (maxRequestRetries list_crawler) (calls list_crawler)"
    by (simp add: cs)
  from C2_retry_budget [OF h1 h2 h3, of 5] h1 h2 h3 show ?thesis
    by (simp add: m)
qed

text \<open>
  The claim as it stands fails: a request that the handler flags \<open>noRetry\<close> goes to
  \<open>handleFailedRequestFunction\<close> on its first failure, with \<open>retryCount = 0\<close> and three
  retries allowed.
\<close>

theorem C2_counterexample:
  "runTaskFunction env_giving_up list_crawler =
     (Inr (),
      list_crawler\<lparr>handledRequestsCount := 1,
        calls :=
          [FetchNextRequest RequestList, HandleRequestFunction page1,
           MarkRequestHandled RequestList (page1\<lparr>noRetry := True, errorMessages := [''boom'']\<rparr>),
           HandleFailedRequestFunction (page1\<lparr>noRetry := True, errorMessages := [''boom'']\<rparr>) boom]\<rparr>) \<and>
   retryCount (page1\<lparr>noRetry := True, errorMessages := [''boom'']\<rparr>) = 0 \<and>
   maxRequestRetries list_crawler = 3 \<and>
   noRetry (page1\<lparr>noRetry := True, errorMessages := [''boom'']\<rparr>)"
  by (simp add: runTaskFunction_def fetchNextRequest_def list_fetchNextRequest_def
      handleError_def requestFunctionErrorHandler_def pushErrorMessage_def Let_def reclaimRequest_def
      markRequestHandled_def handleFailedRequestFunction_def present_def taskSource_def emit_def
      env_giving_up_def env_ok_def list_crawler_def page1_def boom_def)

subsection \<open>Fetching with a list and a queue\<close>

text \<open>
  Claim C3. With both a request list and a request queue, and a list that hands out a request
  \<open>r\<close>, \<open>_fetchNextRequest\<close> asks the list first and adds \<open>r\<close> to the queue with
  \<open>forefront = true\<close>. When the queue accepts it, the queue is asked for its next request and
  \<open>r\<close> is marked handled in the list, and the queue's answer is the result (unless one of the
  two rejects). When the queue refuses it, the failure is logged, \<open>r\<close> is reclaimed to the list
  and the result is \<open>null\<close> (unless the reclaim rejects). No other call is made.
\<close>

theorem C3_list_then_queue:
  assumes "requestList c" and "requestQueue c"
    and "env_fetchNextRequest env (calls c) RequestList = Inr (Some r)"
  shows "case fetchNextRequest env c of
     (res, c') \<Rightarrow>
       (case env_addRequest env (calls c @ [FetchNextRequest RequestList]) r True of
          Inr u \<Rightarrow>
            newCalls c c' =
              [FetchNextRequest RequestList, AddRequest r True,
               FetchNextRequest RequestQueue, MarkRequestHandled RequestList r] \<and>
            res =
              (case env_fetchNextRequest env
                      (calls c @ [FetchNextRequest RequestList, AddRequest r True]) RequestQueue of
                 Inl e \<Rightarrow> Inl e
               | Inr nextRequest \<Rightarrow>
                   (case env_markRequestHandled env
                           (calls c @ [FetchNextRequest RequestList, AddRequest r True,
                                       FetchNextRequest RequestQueue]) RequestList r of
                      Inl e \<Rightarrow> Inl e
                    | Inr u' \<Rightarrow> Inr nextRequest))
        | Inl err \<Rightarrow>
            newCalls c c' =
              [FetchNextRequest RequestList, AddRequest r True,
               Log (AddRequestFailed err r), ReclaimRequest RequestList r] \<and>
            res =
              (case env_reclaimRequest env
                      (calls c @ [FetchNextRequest RequestList, AddRequest r True,
                                  Log (AddRequestFailed err r)]) RequestList r of
                 Inl e \<Rightarrow> Inl e
               | Inr u' \<Rightarrow> Inr None))"
  using assms
  by (auto simp: fetchNextRequest_def list_fetchNextRequest_def queue_fetchNextRequest_def
      queue_addRequest_def reclaimRequest_def markRequestHandled_def present_def emit_def
      newCalls_def split: sum.splits)

theorem C3_list_then_queue_witness:
  "requestList both_crawler \<and> requestQueue both_crawler \<and>
   env_fetchNextRequest env_both (calls both_crawler) RequestList = Inr (Some page1) \<and>
   env_fetchNextRequest env_add_fails (calls both_crawler) RequestList = Inr (Some page1) \<and>
   (case fetchNextRequest env_both both_crawler of
      (res, c') \<Rightarrow>
        newCalls both_crawler c' =
          [FetchNextRequest RequestList, AddRequest page1 True,
           FetchNextRequest RequestQueue, MarkRequestHandled RequestList page1] \<and>
        res = Inr (Some page2)) \<and>
   (case fetchNextRequest env_add_fails both_crawler of
      (res, c') \<Rightarrow>
        newCalls both_crawler c' =
          [FetchNextRequest RequestList, AddRequest page1 True,
           Log (AddRequestFailed (Error ''queue is down'') page1),
           ReclaimRequest RequestList page1] \<and>
        res = Inr None)"
proof -
  have l: "requestList both_crawler" and q: "requestQueue both_crawler"
    by (simp_all add: both_crawler_def list_crawler_def)
  have f1: "env_fetchNextRequest env_both (calls both_crawler) RequestList = Inr (Some page1)"
    by (simp add: env_both_def env_ok_def)
  have f2: "env_fetchNextRequest env_add_fails (calls both_crawler) RequestList = Inr (Some page1)"
    by (simp add: env_add_fails_def env_both_def env_ok_def)
  have e1: "env_addRequest env_both cs page1 True = Inr ()"
    "env_fetchNextRequest env_both cs RequestQueue = Inr (Some page2)"
    "env_markRequestHandled env_both cs RequestList page1 = Inr ()" for cs
    by (simp_all add: env_both_def env_ok_def)
  have e2: "env_addRequest env_add_fails cs page1 True = Inl (Error ''queue is down'')"
    "env_reclaimRequest env_add_fails cs RequestList page1 = Inr ()" for cs
    by (simp_all add: env_add_fails_def env_both_def env_ok_def)
  from C3_list_then_queue [OF l q f1] C3_list_then_queue [OF l q f2] l q f1 f2
  show ?thesis
    by (simp add: e1 e2 split: prod.splits)
qed

subsection \<open>The handled count on \<open>run\<close>\<close>

lemma loadHandledRequestCount_effect:
  "case loadHandledRequestCount env c of
      (res, c') \<Rightarrow>
        c' = c\<lparr>calls := calls c', handledRequestsCount := handledRequestsCount c'\<rparr> \<and>
        (if requestQueue c then
           calls c' = calls c @ [HandledCount RequestQueue] \<and>
           (case env_handledCount env (calls c) RequestQueue of
              Inr n \<Rightarrow> res = Inr () \<and> handledRequestsCount c' = n
            | Inl e \<Rightarrow> res = Inl e \<and> handledRequestsCount c' = handledRequestsCount c)
         else if requestList c then
           calls c' = calls c @ [HandledCount RequestList] \<and>
           (case env_handledCount env (calls c) RequestList of
              Inr n \<Rightarrow> res = Inr () \<and> handledRequestsCount c' = n
            | Inl e \<Rightarrow> res = Inl e \<and> handledRequestsCount c' = handledRequestsCount c)
         else res = Inr () \<and> c' = c)"
  by (auto simp: loadHandledRequestCount_def emit_def split: sum.splits)

text \<open>
  Claim C9. A call of \<open>run\<close> on a crawler that is not running starts by loading
  \<open>handledRequestsCount\<close>: from the queue's \<open>handledCount()\<close> whenever a queue is bound (the
  list is then not asked), and from the list's \<open>handledCount()\<close> only when there is no queue.
  When the count cannot be read, \<open>run\<close> rejects and the count stays as it was.
\<close>

theorem C9_handled_count:
  assumes "isRunningPromise c = None"
  shows "case run env c of
     (st, c') \<Rightarrow>
       (if requestQueue c then
          take 1 (newCalls c c') = [HandledCount RequestQueue] \<and>
          HandledCount RequestList \<notin> set (newCalls c c') \<and>
          (case env_handledCount env (calls c) RequestQueue of
             Inr n \<Rightarrow> handledRequestsCount c' = n \<and> st = Awaiting (PoolRunPromise (poolsCreated c))
           | Inl e \<Rightarrow> handledRequestsCount c' = handledRequestsCount c \<and> st = Rejected e)
        else if requestList c then
          take 1 (newCalls c c') = [HandledCount RequestList] \<and>
          (case env_handledCount env (calls c) RequestList of
             Inr n \<Rightarrow> handledRequestsCount c' = n \<and> st = Awaiting (PoolRunPromise (poolsCreated c))
           | Inl e \<Rightarrow> handledRequestsCount c' = handledRequestsCount c \<and> st = Rejected e)
        else handledRequestsCount c' = handledRequestsCount c)"
  using assms
  by (auto simp: loadHandledRequestCount_def run_def run_enter_def run_createPool_def Let_def
      emit_def newCalls_def poolsCreated_def split: sum.splits)

theorem C9_handled_count_witness:
  "isRunningPromise both_crawler = None \<and> isRunningPromise list_crawler = None \<and>
   requestQueue both_crawler \<and> requestList both_crawler \<and>
   \<not> requestQueue list_crawler \<and> requestList list_crawler \<and>
   handledRequestsCount (snd (run env_counts both_crawler)) = 7 \<and>
   handledRequestsCount (snd (run env_counts list_crawler)) = 2"
proof -
  have b: "isRunningPromise both_crawler = None" and l: "isRunningPromise list_crawler = None"
    by (simp_all add: both_crawler_def list_crawler_def)
  have f: "requestQueue both_crawler" "requestList both_crawler"
    "\<not> requestQueue list_crawler" "requestList list_crawler"
    by (simp_all add: both_crawler_def list_crawler_def)
  have e: "env_handledCount env_counts cs RequestQueue = Inr 7"
    "env_handledCount env_counts cs RequestList = Inr 2" for cs
    by (simp_all add: env_counts_def env_ok_def)
  from C9_handled_count [OF b, of env_counts] C9_handled_count [OF l, of env_counts] b l f
  show ?thesis
    by (simp add: e split: prod.splits)
qed

subsection \<open>The limit on handled requests\<close>

text \<open>
  Claim C4, as amended. Whenever \<open>maxRequestsPerCrawl\<close> is set to a number other than zero
  and \<open>handledRequestsCount\<close> has reached it, \<open>isTaskReadyFunction\<close> returns false without
  asking the sources and \<open>isFinishedFunction\<close> returns true (logging that the limit was
  reached). A pool that follows the spec then starts no task and, once idle, resolves \<open>run\<close>.
\<close>

theorem C4_max_requests:
  assumes "maxRequestsPerCrawl c = Some m" and "m \<noteq> 0" and "m \<le> handledRequestsCount c"
  shows "isTaskReadyFunction env c = (Inr False, c) \<and>
         isFinishedFunction env c =
           (Inr True, emit (Log (MaxRequestsReached (handledRequestsCount c))) c) \<and>
         fst (pool_maybeStartTask env c p) = False \<and>
         (if currentConcurrency p = 0
          then runResolved (snd (pool_checkFinished env c p))
          else pool_checkFinished env c p = (c, p))"
  using assms
  by (simp add: isTaskReadyFunction_def isFinishedFunction_def isMaxPagesExceeded_def
      pool_maybeStartTask_def pool_checkFinished_def)

theorem C4_max_requests_witness:
  "maxRequestsPerCrawl (limit_crawler 2 2) = Some 2 \<and> (2::int) \<noteq> 0 \<and>
   2 \<le> handledRequestsCount (limit_crawler 2 2) \<and>
   isTaskReadyFunction env_ok (limit_crawler 2 2) = (Inr False, limit_crawler 2 2) \<and>
   fst (isFinishedFunction env_ok (limit_crawler 2 2)) = Inr True \<and>
   fst (pool_maybeStartTask env_ok (limit_crawler 2 2) idle_pool) = False \<and>
   runResolved (snd (pool_checkFinished env_ok (limit_crawler 2 2) idle_pool))"
proof -
  have h1: "maxRequestsPerCrawl (limit_crawler 2 2) = Some 2"
    and h3: "2 \<le> handledRequestsCount (limit_crawler 2 2)"
    by (simp_all add: limit_crawler_def list_crawler_def)
  have h2: "(2::int) \<noteq> 0" by simp
  have i: "currentConcurrency idle_pool = 0" by (simp add: idle_pool_def)
  from C4_max_requests [OF h1 h2 h3, of env_ok idle_pool] h1 h2 h3 i show ?thesis
    by simp
qed

text \<open>
  The claim as it stands fails for \<open>maxRequestsPerCrawl = 0\<close>: zero is falsy, so the guard
  \<open>maxRequestsPerCrawl && ...\<close> treats it as no limit. With a list that is not empty,
  \<open>isTaskReadyFunction\<close> returns true, \<open>isFinishedFunction\<close> false, and the pool starts a task.
\<close>

theorem C4_counterexample:
  "new_BasicCrawler \<lparr>opt_requestList = True, opt_requestQueue = False,
      opt_maxRequestRetries = None, opt_maxRequestsPerCrawl = Some 0,
      opt_isFinishedFunction = False\<rparr> = Inr (limit_crawler 0 0) \<and>
   maxRequestsPerCrawl (limit_crawler 0 0) = Some 0 \<and>
   0 \<le> handledRequestsCount (limit_crawler 0 0) \<and>
   fst (isTaskReadyFunction env_ok (limit_crawler 0 0)) = Inr True \<and>
   fst (isFinishedFunction env_ok (limit_crawler 0 0)) = Inr False \<and>
   fst (pool_maybeStartTask env_ok (limit_crawler 0 0) idle_pool) = True"
  by (simp add: new_BasicCrawler_def limit_crawler_def list_crawler_def isTaskReadyFunction_def
      isFinishedFunction_def isMaxPagesExceeded_def method_isTaskReadyFunction_def
      defaultIsFinishedFunction_def pool_maybeStartTask_def idle_pool_def emit_def env_ok_def)

subsection \<open>Migration\<close>

lemma running_crawler_eval:
  "running_crawler =
     list_crawler\<lparr>autoscaledPool := Some 0, isRunningPromise := Some (PoolRunPromise 0),
       calls := [HandledCount RequestList, NewAutoscaledPool 0, PoolRun 0]\<rparr>"
  by (simp add: running_crawler_def run_def run_enter_def run_createPool_def
      loadHandledRequestCount_def Let_def emit_def poolsCreated_def env_ok_def list_crawler_def)

text \<open>
  Once \<open>run\<close> has created the pool, the listener of the "migrating" event calls the pool's
  \<open>pause\<close> with a timeout of \<open>SAFE_MIGRATION_WAIT_MILLIS\<close>, which is 20 seconds. Once the pause
  has settled it persists the request list's state when a list is configured. When the pause
  rejects (it timed out), the failure is logged and the state is persisted all the same. The
  listener then never rejects: a failure to persist is logged too.
\<close>

lemma pauseOnMigration_with_pool:
  assumes "autoscaledPool c = Some n"
  shows "SAFE_MIGRATION_WAIT_MILLIS = 20 * 1000 \<and>
    (case pauseOnMigration env c of
       (res, c') \<Rightarrow>
         res = Inr () \<and>
         (let paused = env_poolPause env (calls c) 20000;
              before_persist = calls c @ [PoolPause n 20000] @ pauseTimeoutLog paused
          in calls c' =
               (if requestList c
                then before_persist @ [PersistState]
                       @ persistFailureLog (env_persistState env before_persist)
                else before_persist)))"
  using assms
  by (auto simp: pauseOnMigration_def SAFE_MIGRATION_WAIT_MILLIS_def Let_def emit_def
      pauseTimeoutLog_def persistFailureLog_def split: sum.splits)

lemma pauseOnMigration_with_pool_example:
  "autoscaledPool running_crawler = Some 0 \<and>
   newCalls running_crawler (snd (pauseOnMigration env_ok running_crawler)) =
     [PoolPause 0 20000, PersistState] \<and>
   newCalls running_crawler (snd (pauseOnMigration env_pause_times_out running_crawler)) =
     [PoolPause 0 20000, Log PauseTimedOut, PersistState]"
proof -
  have p: "autoscaledPool running_crawler = Some 0" and l: "requestList running_crawler"
    by (simp_all add: running_crawler_eval list_crawler_def)
  have e: "env_poolPause env_ok cs ms = Inr ()" "env_persistState env_ok cs = Inr ()"
    "env_poolPause env_pause_times_out cs ms = Inl (Error ''The pool did not finish in time'')"
    "env_persistState env_pause_times_out cs = Inr ()" for cs ms
    by (simp_all add: env_pause_times_out_def env_ok_def)
  from pauseOnMigration_with_pool [OF p, of env_ok]
    pauseOnMigration_with_pool [OF p, of env_pause_times_out] p l
  show ?thesis
    by (simp add: e Let_def newCalls_def pauseTimeoutLog_def persistFailureLog_def split: prod.splits)
qed

text \<open>Before \<open>run\<close> has created the pool there is nothing to pause: the listener throws.\<close>

lemma pauseOnMigration_without_pool:
  "autoscaledPool c = None \<Longrightarrow>
     pauseOnMigration env c = (Inl (TypeError ''autoscaledPool is undefined''), c)"
  by (simp add: pauseOnMigration_def)

text \<open>
  Claim C8 fails on a "migrating" event that arrives before the pool exists. The constructor
  registers the listener ("to handle migration events gracefully"), and \<open>run\<close> creates the pool
  only after it has loaded the handled count. On a crawler with a request list that has just
  been constructed, and on the same crawler while \<open>run\<close> waits for the count, the listener
  throws a \<open>TypeError\<close>: nothing is paused and the state of the list is not persisted.
\<close>

theorem C8_migrating_before_run:
  "new_BasicCrawler
     \<lparr>opt_requestList = True, opt_requestQueue = False, opt_maxRequestRetries = None,
      opt_maxRequestsPerCrawl = None, opt_isFinishedFunction = False\<rparr> = Inr list_crawler \<and>
   requestList list_crawler \<and>
   pauseOnMigration env_ok list_crawler =
     (Inl (TypeError ''autoscaledPool is undefined''), list_crawler) \<and>
   (case run_enter env_ok list_crawler of
      (st, c1) \<Rightarrow>
        st = Loaded \<and> calls c1 = [HandledCount RequestList] \<and>
        pauseOnMigration env_ok c1 = (Inl (TypeError ''autoscaledPool is undefined''), c1))"
  by (simp add: new_BasicCrawler_def list_crawler_def pauseOnMigration_def run_enter_def
      loadHandledRequestCount_def emit_def env_ok_def)

subsection \<open>Calling \<open>run\<close> again\<close>

lemma run_first_call:
  assumes "isRunningPromise c = None" and "fst (loadHandledRequestCount env c) = Inr ()"
  shows "case run env c of
     (st, c') \<Rightarrow>
       st = Awaiting (PoolRunPromise (poolsCreated c)) \<and>
       isRunningPromise c' = Some (PoolRunPromise (poolsCreated c)) \<and>
       poolsCreated c' = poolsCreated c + 1"
  using assms
  by (auto simp: run_def run_enter_def run_createPool_def Let_def emit_def poolsCreated_def
      loadHandledRequestCount_def split: sum.splits prod.splits if_splits)

lemma run_abortable_first_call:
  assumes "\<not> isRunning c" and "fst (loadHandledRequestCount env c) = Inr ()"
  shows "case run_abortable env c of
     (st, c') \<Rightarrow>
       st = Awaiting (PoolRunPromise (poolsCreated c)) \<and> isRunning c' \<and>
       isRunningPromise c' = Some (PoolRunPromise (poolsCreated c)) \<and>
       poolsCreated c' = poolsCreated c + 1"
  using assms
  by (auto simp: run_abortable_def run_enter_abortable_def run_createPool_abortable_def Let_def
      emit_def poolsCreated_def loadHandledRequestCount_def split: sum.splits prod.splits if_splits)

lemma run_second_call:
  assumes "run env c = (Awaiting p, c1)"
  shows "run env2 c1 = (Returned (Some p), c1)"
proof -
  have "isRunningPromise c1 = Some p"
    using assms
    by (auto simp: run_def run_enter_def run_createPool_def Let_def
        split: sum.splits prod.splits option.splits run_state.splits)
  then show ?thesis
    by (simp add: run_def run_enter_def)
qed

lemma run_abortable_second_call:
  assumes "run_abortable env c = (Awaiting p, c1)"
  shows "run_abortable env2 c1 = (Returned (Some p), c1)"
proof -
  have "isRunning c1 \<and> isRunningPromise c1 = Some p"
    using assms
    by (auto simp: run_abortable_def run_enter_abortable_def run_createPool_abortable_def Let_def
        emit_def split: sum.splits prod.splits option.splits run_state.splits if_splits)
  then show ?thesis
    by (simp add: run_abortable_def run_enter_abortable_def)
qed

text \<open>
  Once a call of \<open>run\<close> has created the pool, stored the promise of the pool's \<open>run()\<close> and is
  waiting on it, another call of \<open>run\<close> returns that stored promise and leaves the crawler as
  it is: no count is loaded, no second pool is created, nothing is started. This holds for
  both copies of the class.
\<close>

lemma run_again_after_start:
  assumes "run env c = (Awaiting p, c1)" and "run_abortable env' c' = (Awaiting p', c1')"
  shows "run env2 c1 = (Returned (Some p), c1) \<and>
         run_abortable env2 c1' = (Returned (Some p'), c1')"
  using assms run_second_call run_abortable_second_call by blast

lemma running_abortable_crawler_eval:
  "running_abortable_crawler =
     both_crawler\<lparr>autoscaledPool := Some 0, isRunningPromise := Some (PoolRunPromise 0),
       isRunning := True, rejectOnAbortPromise := Pending,
       calls := [HandledCount RequestQueue, NewAutoscaledPool 0, PoolRun 0]\<rparr>"
  by (simp add: running_abortable_crawler_def run_abortable_def run_enter_abortable_def
      run_createPool_abortable_def loadHandledRequestCount_def Let_def emit_def poolsCreated_def
      env_ok_def both_crawler_def list_crawler_def)

lemma run_again_example:
  "run env_ok list_crawler = (Awaiting (PoolRunPromise 0), running_crawler) \<and>
   run_abortable env_ok both_crawler = (Awaiting (PoolRunPromise 0), running_abortable_crawler) \<and>
   run env_counts running_crawler = (Returned (Some (PoolRunPromise 0)), running_crawler) \<and>
   run_abortable env_counts running_abortable_crawler =
     (Returned (Some (PoolRunPromise 0)), running_abortable_crawler) \<and>
   poolsCreated running_crawler = 1 \<and> poolsCreated running_abortable_crawler = 1"
proof -
  have r1: "run env_ok list_crawler = (Awaiting (PoolRunPromise 0), running_crawler)"
    unfolding running_crawler_def
    by (simp add: run_def run_enter_def run_createPool_def
      loadHandledRequestCount_def Let_def emit_def poolsCreated_def env_ok_def list_crawler_def)
  have r2: "run_abortable env_ok both_crawler = (Awaiting (PoolRunPromise 0), running_abortable_crawler)"
    unfolding running_abortable_crawler_def
    by (simp add: run_abortable_def run_enter_abortable_def
      run_createPool_abortable_def loadHandledRequestCount_def Let_def emit_def poolsCreated_def
      env_ok_def both_crawler_def list_crawler_def)
  have p: "poolsCreated running_crawler = 1" "poolsCreated running_abortable_crawler = 1"
    by (simp_all add: running_crawler_eval running_abortable_crawler_eval poolsCreated_def
        both_crawler_def list_crawler_def)
  from run_again_after_start [OF r1 r2, of env_counts] r1 r2 p show ?thesis
    by simp
qed

text \<open>
  The guard is set only after \<open>await this._loadHandledRequestCount()\<close>: a second call that
  enters while the first is still loading the count passes the guard too, and each of the
  two then creates a pool.
\<close>

lemma run_overlapping_calls:
  assumes "isRunningPromise c = None" and "requestList c" and "\<not> requestQueue c"
    and "\<forall>cs. env_handledCount env cs RequestList = Inr n"
  shows "case run_enter env c of
     (st1, c1) \<Rightarrow>
       (case run_enter env c1 of
          (st2, c2) \<Rightarrow>
            st1 = Loaded \<and> st2 = Loaded \<and>
            poolsCreated (snd (run_createPool (snd (run_createPool c2)))) = poolsCreated c + 2)"
  using assms
  by (auto simp: run_enter_def run_createPool_def Let_def emit_def poolsCreated_def
      loadHandledRequestCount_def split: sum.splits prod.splits)

text \<open>
  Claim C10 fails for two calls of \<open>run\<close> that overlap. The guard of \<open>run\<close> reads what is
  stored only after \<open>await this._loadHandledRequestCount()\<close>, so a second call made while the
  first one waits there passes the guard too. On a crawler that has just been constructed,
  in either copy of the class, both calls load the count, each creates a pool of its own and
  runs it, and the two calls wait on different promises.
\<close>

theorem C10_overlapping_runs:
  "(case run_enter env_ok list_crawler of
      (st1, c1) \<Rightarrow>
        (case run_enter env_ok c1 of
           (st2, c2) \<Rightarrow>
             (case run_createPool c2 of
                (st3, c3) \<Rightarrow>
                  (case run_createPool c3 of
                     (st4, c4) \<Rightarrow>
                       st1 = Loaded \<and> st2 = Loaded \<and>
                       st3 = Awaiting (PoolRunPromise 0) \<and> st4 = Awaiting (PoolRunPromise 1) \<and>
                       poolsCreated c4 = 2 \<and>
                       calls c4 =
                         [HandledCount RequestList, HandledCount RequestList,
                          NewAutoscaledPool 0, PoolRun 0, NewAutoscaledPool 1, PoolRun 1])))) \<and>
   (case run_enter_abortable env_ok both_crawler of
      (st1, c1) \<Rightarrow>
        (case run_enter_abortable env_ok c1 of
           (st2, c2) \<Rightarrow>
             (case run_createPool_abortable c2 of
                (st3, c3) \<Rightarrow>
                  (case run_createPool_abortable c3 of
                     (st4, c4) \<Rightarrow>
                       st1 = Loaded \<and> st2 = Loaded \<and>
                       st3 = Awaiting (PoolRunPromise 0) \<and> st4 = Awaiting (PoolRunPromise 1) \<and>
                       poolsCreated c4 = 2 \<and>
                       calls c4 =
                         [HandledCount RequestQueue, HandledCount RequestQueue,
                          NewAutoscaledPool 0, PoolRun 0, NewAutoscaledPool 1, PoolRun 1]))))"
  by (simp add: run_enter_def run_createPool_def run_enter_abortable_def
      run_createPool_abortable_def loadHandledRequestCount_def Let_def emit_def poolsCreated_def
      env_ok_def both_crawler_def list_crawler_def)

subsection \<open>Abort\<close>

lemma abort_enter_effect:
  "abort_enter env c =
     (case autoscaledPool c of
        None \<Rightarrow> (AbortFailed (TypeError ''autoscaledPool is undefined''), c\<lparr>isRunning := False\<rparr>)
      | Some n \<Rightarrow>
          (AwaitingPoolAbort (env_poolAbort env (calls c)),
           c\<lparr>isRunning := False, calls := calls c @ [PoolAbort n]\<rparr>))"
  by (simp add: abort_enter_def Let_def emit_def split: option.splits)

lemma resume_rejected_while_stopped:
  assumes "\<not> isRunning c" and "present c src"
  shows "\<exists>res. task_resume env (Some (r, Inl err)) r src c =
     (Done res, c\<lparr>calls := calls c @ [ReclaimRequest src r] @ secondaryErrorLog res\<rparr>)"
  using assms
  by (auto simp: task_resume_def race_def task_settle_def handleError_abortable_def
      requestFunctionErrorHandler_abortable_def reclaimRequest_def emit_def secondaryErrorLog_def
      split: sum.splits prod.splits)

lemma resume_signalled_while_stopped:
  assumes "\<not> isRunning c" and "present c src" and "rejectOnAbortPromise c = RejectedWith e"
  shows "\<exists>res. task_resume env None r src c =
     (Done res, c\<lparr>calls := calls c @ [ReclaimRequest src r] @ secondaryErrorLog res\<rparr>)"
  using assms
  by (auto simp: task_resume_def race_def task_settle_def handleError_abortable_def
      requestFunctionErrorHandler_abortable_def reclaimRequest_def emit_def secondaryErrorLog_def
      split: sum.splits prod.splits)

lemma resume_pending:
  assumes "rejectOnAbortPromise c = Pending"
  shows "task_resume env None r src c = (InFlight r src, c)"
  using assms by (simp add: task_resume_def race_def)

lemma filter_secondaryErrorLog [simp]: "filter (Not \<circ> isLog) (secondaryErrorLog res) = []"
  by (simp add: secondaryErrorLog_def split: sum.splits)

lemma isPresentSource_calls [simp]:
  "isPresentSource (c\<lparr>calls := cs\<rparr>) = isPresentSource c"
  by (rule ext) (auto simp: present_def split: source.splits)

lemma settleHandlers_while_stopped:
  assumes "\<not> isRunning c" and "list_all (isPresentSource c) ts"
  shows "\<exists>ds. settleHandlers env (map unfinished ts) c = c\<lparr>calls := calls c @ ds\<rparr> \<and>
              filter (Not \<circ> isLog) ds = map reclaimOf (filter isRejecting ts)"
  using assms
proof (induction ts arbitrary: c)
  case Nil
  show ?case by (rule exI [where x = "[]"]) simp
next
  case (Cons t ts)
  obtain r src e where t: "t = (r, src, e)" by (cases t)
  have p: "present c src" using Cons.prems t by simp
  show ?case
  proof (cases e)
    case None
    from Cons.IH [of c] Cons.prems show ?thesis
      by (simp add: t None)
  next
    case (Some err)
    from resume_rejected_while_stopped [OF Cons.prems(1) p, of env r err] obtain res where
      res: "task_resume env (Some (r, Inl err)) r src c =
        (Done res, c\<lparr>calls := calls c @ [ReclaimRequest src r] @ secondaryErrorLog res\<rparr>)"
      by blast
    let ?c1 = "c\<lparr>calls := calls c @ [ReclaimRequest src r] @ secondaryErrorLog res\<rparr>"
    have "\<not> isRunning ?c1" "list_all (isPresentSource ?c1) ts"
      using Cons.prems by simp_all
    from Cons.IH [OF this] obtain ds where
      ds: "settleHandlers env (map unfinished ts) ?c1 = ?c1\<lparr>calls := calls ?c1 @ ds\<rparr>"
        "filter (Not \<circ> isLog) ds = map reclaimOf (filter isRejecting ts)"
      by blast
    let ?ds = "[ReclaimRequest src r] @ secondaryErrorLog res @ ds"
    have "settleHandlers env (map unfinished (t # ts)) c = c\<lparr>calls := calls c @ ?ds\<rparr>"
      using ds(1) by (simp add: t Some res)
    moreover have "filter (Not \<circ> isLog) ?ds = map reclaimOf (filter isRejecting (t # ts))"
      using ds(2) by (simp add: t Some)
    ultimately show ?thesis by blast
  qed
qed

lemma settleRaces_signalled:
  assumes "\<not> isRunning c" and "list_all (isPresentSource c) ts"
    and "rejectOnAbortPromise c = RejectedWith e"
  shows "\<exists>ds. settleRaces env (map unfinished ts) c = c\<lparr>calls := calls c @ ds\<rparr> \<and>
              filter (Not \<circ> isLog) ds = map reclaimOf (filter (Not \<circ> isRejecting) ts)"
  using assms
proof (induction ts arbitrary: c)
  case Nil
  show ?case by (rule exI [where x = "[]"]) simp
next
  case (Cons t ts)
  obtain r src f where t: "t = (r, src, f)" by (cases t)
  have p: "present c src" using Cons.prems t by simp
  show ?case
  proof (cases f)
    case (Some err)
    from Cons.IH [of c] Cons.prems show ?thesis
      by (simp add: t Some)
  next
    case None
    from resume_signalled_while_stopped [OF Cons.prems(1) p Cons.prems(3), of env r] obtain res where
      res: "task_resume env None r src c =
        (Done res, c\<lparr>calls := calls c @ [ReclaimRequest src r] @ secondaryErrorLog res\<rparr>)"
      by blast
    let ?c1 = "c\<lparr>calls := calls c @ [ReclaimRequest src r] @ secondaryErrorLog res\<rparr>"
    have "\<not> isRunning ?c1" "list_all (isPresentSource ?c1) ts"
      "rejectOnAbortPromise ?c1 = RejectedWith e"
      using Cons.prems by simp_all
    from Cons.IH [OF this] obtain ds where
      ds: "settleRaces env (map unfinished ts) ?c1 = ?c1\<lparr>calls := calls ?c1 @ ds\<rparr>"
        "filter (Not \<circ> isLog) ds = map reclaimOf (filter (Not \<circ> isRejecting) ts)"
      by blast
    let ?ds = "[ReclaimRequest src r] @ secondaryErrorLog res @ ds"
    have "settleRaces env (map unfinished (t # ts)) c = c\<lparr>calls := calls c @ ?ds\<rparr>"
      using ds(1) by (simp add: t None res)
    moreover have "filter (Not \<circ> isLog) ?ds = map reclaimOf (filter (Not \<circ> isRejecting) (t # ts))"
      using ds(2) by (simp add: t None)
    ultimately show ?thesis by blast
  qed
qed

lemma settleRaces_pending:
  assumes "rejectOnAbortPromise c = Pending"
  shows "settleRaces env (map unfinished ts) c = c"
proof (induction ts)
  case Nil
  then show ?case by simp
next
  case (Cons t ts)
  obtain r src f where t: "t = (r, src, f)" by (cases t)
  show ?case
    using Cons by (cases f) (simp_all add: t resume_pending [OF assms])
qed

lemma isPresentSource_stopped [simp]:
  "isPresentSource (c\<lparr>isRunning := b\<rparr>) = isPresentSource c"
  "isPresentSource (c\<lparr>rejectOnAbortPromise := p\<rparr>) = isPresentSource c"
  by (rule ext, auto simp: present_def split: source.splits)+

lemma settleRaces_effect:
  assumes "\<not> isRunning c" and "list_all (isPresentSource c) ts"
    and "rejectOnAbortPromise c \<noteq> NoPromise"
  shows "\<exists>es. settleRaces env (map unfinished ts) c = c\<lparr>calls := calls c @ es\<rparr> \<and>
              filter (Not \<circ> isLog) es =
                (if rejectOnAbortPromise c = Pending then []
                 else map reclaimOf (filter (Not \<circ> isRejecting) ts))"
proof (cases "rejectOnAbortPromise c")
  case NoPromise
  then show ?thesis using assms(3) by simp
next
  case Pending
  show ?thesis
    by (rule exI [where x = "[]"]) (simp add: settleRaces_pending [OF Pending] Pending)
next
  case (RejectedWith e)
  from settleRaces_signalled [OF assms(1,2) RejectedWith, of env] show ?thesis
    by (simp add: RejectedWith)
qed

lemma abort_resume_effect:
  assumes "rejectOnAbortPromise c \<noteq> NoPromise"
  shows "abort_resume settled c =
     (settled,
      c\<lparr>calls := calls c @ (case settled of Inl e \<Rightarrow> [] | Inr u \<Rightarrow> [RejectOnAbort abortError]),
        rejectOnAbortPromise :=
          (if settled = Inr () \<and> rejectOnAbortPromise c = Pending then RejectedWith abortError
           else rejectOnAbortPromise c)\<rparr>)"
  using assms
  by (cases "rejectOnAbortPromise c"; cases settled)
    (simp_all add: abort_resume_def rejectOnAbort_def emit_def abortError_def)

text \<open>
  Claim C7, as amended. \<open>run\<close> has created \<open>rejectOnAbortPromise\<close>, tasks are in flight, and
  \<open>abort\<close> is called. It clears \<open>isRunning\<close> and calls the pool's \<open>abort()\<close>. While it waits for
  the pool, every task whose handler rejects has its request reclaimed. When the pool's
  \<open>abort()\<close> has resolved, \<open>abort\<close> rejects \<open>rejectOnAbortPromise\<close>; that rejection settles the
  race of every task whose handler is still pending, and each of these has its request
  reclaimed too. Apart from log entries these are all the calls made. A request is reclaimed
  on the task's source, exactly as its handler left it: no error message is appended,
  \<open>retryCount\<close> is not incremented; \<open>handledRequestsCount\<close> stays as it was. When the pool's
  \<open>abort()\<close> rejects, or when there is no pool, \<open>abort\<close> fails with that error and does not
  reject the promise: unless it had been rejected before, the tasks whose handler is pending
  stay in flight.
\<close>

theorem C7_abort_reclaims:
  assumes "rejectOnAbortPromise c \<noteq> NoPromise" and "list_all (isPresentSource c) inFlight"
  shows "case abortWhileInFlight env (map unfinished inFlight) c of
     (res, c') \<Rightarrow>
       \<not> isRunning c' \<and> handledRequestsCount c' = handledRequestsCount c \<and>
       take (length (calls c)) (calls c') = calls c \<and>
       res = (case autoscaledPool c of
                None \<Rightarrow> Inl (TypeError ''autoscaledPool is undefined'')
              | Some n \<Rightarrow> env_poolAbort env (calls c)) \<and>
       filter (Not \<circ> isLog) (newCalls c c') =
         (case autoscaledPool c of None \<Rightarrow> [] | Some n \<Rightarrow> [PoolAbort n]) @
         map reclaimOf (filter isRejecting inFlight) @
         (if abortSignals env c then [RejectOnAbort abortError] else []) @
         (if abortSignals env c \<or> rejectOnAbortPromise c \<noteq> Pending
          then map reclaimOf (filter (Not \<circ> isRejecting) inFlight) else [])"
proof -
  define pool where "pool = (case autoscaledPool c of None \<Rightarrow> [] | Some n \<Rightarrow> [PoolAbort n])"
  define c1 where "c1 = c\<lparr>isRunning := False, calls := calls c @ pool\<rparr>"
  have enter: "snd (abort_enter env c) = c1"
    by (simp add: abort_enter_effect c1_def pool_def split: option.splits)
  have c1: "\<not> isRunning c1" "list_all (isPresentSource c1) inFlight"
    using assms(2) by (simp_all add: c1_def)
  from settleHandlers_while_stopped [OF c1, of env] obtain ds where
    ds: "settleHandlers env (map unfinished inFlight) c1 = c1\<lparr>calls := calls c1 @ ds\<rparr>"
      "filter (Not \<circ> isLog) ds = map reclaimOf (filter isRejecting inFlight)"
    by blast
  define c2 where "c2 = c1\<lparr>calls := calls c1 @ ds\<rparr>"
  have c2: "\<not> isRunning c2" "list_all (isPresentSource c2) inFlight"
    "rejectOnAbortPromise c2 = rejectOnAbortPromise c" "handledRequestsCount c2 = handledRequestsCount c"
    "calls c2 = calls c @ pool @ ds"
    using assms(2) by (simp_all add: c2_def c1_def)
  have c2': "rejectOnAbortPromise c2 \<noteq> NoPromise"
    using assms(1) c2(3) by simp
  define res where "res = (case autoscaledPool c of
      None \<Rightarrow> Inl (TypeError ''autoscaledPool is undefined'')
    | Some n \<Rightarrow> env_poolAbort env (calls c))"
  define sig where "sig = (if abortSignals env c then [RejectOnAbort abortError] else [])"
  define c3 where "c3 = c2\<lparr>calls := calls c2 @ sig,
      rejectOnAbortPromise :=
        (if abortSignals env c \<and> rejectOnAbortPromise c = Pending then RejectedWith abortError
         else rejectOnAbortPromise c)\<rparr>"
  have resume: "(case fst (abort_enter env c) of
        AbortFailed e \<Rightarrow> (Inl e, c2)
      | AwaitingPoolAbort settled \<Rightarrow> abort_resume settled c2) = (res, c3)"
  proof (cases "autoscaledPool c")
    case None
    then show ?thesis
      by (simp add: abort_enter_effect res_def c3_def sig_def abortSignals_def c2(3) [symmetric])
  next
    case (Some n)
    show ?thesis
      by (cases "env_poolAbort env (calls c)")
        (simp_all add: abort_enter_effect Some abort_resume_effect [OF c2'] res_def c3_def sig_def
          abortSignals_def c2(3))
  qed
  have c3: "\<not> isRunning c3" "list_all (isPresentSource c3) inFlight"
    "rejectOnAbortPromise c3 \<noteq> NoPromise"
    "rejectOnAbortPromise c3 = Pending \<longleftrightarrow> \<not> (abortSignals env c \<or> rejectOnAbortPromise c \<noteq> Pending)"
    using c2(1,2) assms(1) by (auto simp: c3_def)
  from settleRaces_effect [OF c3(1,2,3), of env] obtain es where
    es: "settleRaces env (map unfinished inFlight) c3 = c3\<lparr>calls := calls c3 @ es\<rparr>"
      "filter (Not \<circ> isLog) es =
        (if abortSignals env c \<or> rejectOnAbortPromise c \<noteq> Pending
         then map reclaimOf (filter (Not \<circ> isRejecting) inFlight) else [])"
    unfolding c3(4) by auto
  have whole: "abortWhileInFlight env (map unfinished inFlight) c = (res, c3\<lparr>calls := calls c3 @ es\<rparr>)"
  proof -
    have "abortWhileInFlight env (map unfinished inFlight) c =
        (case (case fst (abort_enter env c) of
                 AbortFailed e \<Rightarrow> (Inl e, c2)
               | AwaitingPoolAbort settled \<Rightarrow> abort_resume settled c2) of
           (res, c2) \<Rightarrow> (res, settleRaces env (map unfinished inFlight) c2))"
      unfolding abortWhileInFlight_def
      by (simp add: case_prod_beta enter ds(1) c2_def cong: abort_state.case_cong)
    then show ?thesis
      by (simp add: resume es(1))
  qed
  define c4 where "c4 = c3\<lparr>calls := calls c3 @ es\<rparr>"
  have c4: "\<not> isRunning c4" "handledRequestsCount c4 = handledRequestsCount c"
    "calls c4 = calls c @ pool @ ds @ sig @ es"
    using c2(1,4) by (simp_all add: c4_def c3_def c2(5))
  have pool: "filter (Not \<circ> isLog) pool = pool"
    by (simp add: pool_def split: option.splits)
  have sig: "filter (Not \<circ> isLog) sig = sig"
    by (simp add: sig_def)
  have "filter (Not \<circ> isLog) (newCalls c c4) =
      pool @ map reclaimOf (filter isRejecting inFlight) @ sig @
      (if abortSignals env c \<or> rejectOnAbortPromise c \<noteq> Pending
       then map reclaimOf (filter (Not \<circ> isRejecting) inFlight) else [])"
    by (simp add: newCalls_def c4(3) pool sig ds(2) es(2))
  then show ?thesis
    unfolding whole prod.case c4_def [symmetric]
    using c4 by (simp add: res_def pool_def sig_def)
qed

lemma in_flight_eval:
  "task_begin env_both running_abortable_crawler = (InFlight page2 RequestQueue, in_flight_crawler)"
  "in_flight_crawler =
     both_crawler\<lparr>autoscaledPool := Some 0, isRunningPromise := Some (PoolRunPromise 0),
       isRunning := True, rejectOnAbortPromise := Pending,
       calls :=
        [HandledCount RequestQueue, NewAutoscaledPool 0, PoolRun 0,
         FetchNextRequest RequestList, AddRequest page1 True, FetchNextRequest RequestQueue,
         MarkRequestHandled RequestList page1, HandleRequestFunction page2]\<rparr>"
  by (simp_all add: in_flight_crawler_def running_abortable_crawler_eval task_begin_def
      fetchNextRequest_def list_fetchNextRequest_def queue_fetchNextRequest_def
      queue_addRequest_def markRequestHandled_def present_def taskSource_def Let_def emit_def
      env_both_def env_ok_def both_crawler_def list_crawler_def)

lemma in_flight_fields:
  "rejectOnAbortPromise in_flight_crawler = Pending"
  "autoscaledPool in_flight_crawler = Some 0"
  "handledRequestsCount in_flight_crawler = 0"
  "present in_flight_crawler RequestQueue"
  by (simp_all add: in_flight_eval(2) present_def both_crawler_def list_crawler_def)

text \<open>
  One task in flight on \<open>page2\<close>, aborted: with its handler still pending when the promise is
  rejected, and with a handler that throws while \<open>abort\<close> waits for the pool.
\<close>

theorem C7_abort_reclaims_witness:
  "rejectOnAbortPromise in_flight_crawler \<noteq> NoPromise \<and>
   list_all (isPresentSource in_flight_crawler) [(page2, RequestQueue, None)] \<and>
   list_all (isPresentSource in_flight_crawler) [(page2, RequestQueue, Some boom)] \<and>
   (case abortWhileInFlight env_ok [(page2, RequestQueue, None)] in_flight_crawler of
      (res, c') \<Rightarrow>
        res = Inr () \<and> \<not> isRunning c' \<and> handledRequestsCount c' = 0 \<and>
        filter (Not \<circ> isLog) (newCalls in_flight_crawler c') =
          [PoolAbort 0, RejectOnAbort abortError, ReclaimRequest RequestQueue page2]) \<and>
   (case abortWhileInFlight env_ok [(page2, RequestQueue, Some (Inl boom))] in_flight_crawler of
      (res, c') \<Rightarrow>
        res = Inr () \<and> \<not> isRunning c' \<and> handledRequestsCount c' = 0 \<and>
        filter (Not \<circ> isLog) (newCalls in_flight_crawler c') =
          [PoolAbort 0, ReclaimRequest RequestQueue page2, RejectOnAbort abortError])"
proof -
  have h: "list_all (isPresentSource in_flight_crawler) [(page2, RequestQueue, None)]"
    "list_all (isPresentSource in_flight_crawler) [(page2, RequestQueue, Some boom)]"
    by (simp_all add: in_flight_fields)
  have e: "env_poolAbort env_ok cs = Inr ()" for cs
    by (simp add: env_ok_def)
  have p: "rejectOnAbortPromise in_flight_crawler \<noteq> NoPromise"
    by (simp add: in_flight_fields)
  from C7_abort_reclaims [OF p h(1), where env = env_ok]
    C7_abort_reclaims [OF p h(2), where env = env_ok] h
  show ?thesis
    by (simp add: in_flight_fields e abortSignals_def split: prod.splits)
qed

text \<open>
  Claim C7 as stated fails for a task that is in flight when \<open>abort\<close> is called and whose
  handler resolves while \<open>abort\<close> waits for the pool: the handler wins the race, the request
  is marked handled and counted, and it is never reclaimed.
\<close>

theorem C7_counterexample:
  "case abortWhileInFlight env_ok [(page2, RequestQueue, Some (Inr ()))] in_flight_crawler of
     (res, c') \<Rightarrow>
       res = Inr () \<and> handledRequestsCount in_flight_crawler = 0 \<and> handledRequestsCount c' = 1 \<and>
       newCalls in_flight_crawler c' =
         [PoolAbort 0, MarkRequestHandled RequestQueue page2,
          RejectOnAbort
            (Error ''BasicCrawler: .abort() function has been called. Aborting the crawler.'')]"
  by code_simp

section \<open>Properties of PuppeteerPool\<close>

subsection \<open>The loop over the idle pages\<close>

lemma closePage_fields [simp]:
  "pagesToInstancesMap (closePage q p) = pagesToInstancesMap p"
  "activeInstances (closePage q p) = activeInstances p"
  "retiredInstances (closePage q p) = retiredInstances p"
  "instances (closePage q p) = instances p"
  "closedPages (closePage q p) = insert q (closedPages p)"
  "browserCounter (closePage q p) = browserCounter p"
  "pageCounter (closePage q p) = pageCounter p"
  by (simp_all add: closePage_def record_op_def)


lemma liveIdle_idlePages [simp]: "liveIdle (p\<lparr>idlePages := xs\<rparr>) = liveIdle p"
  by (rule ext) (simp add: liveIdle_def split: option.splits)

lemma isMapped_idlePages [simp]: "isMapped (p\<lparr>idlePages := xs\<rparr>) = isMapped p"
  by (rule ext) (simp add: isMapped_def)

lemma isMapped_closePage [simp]: "isMapped (closePage q p) = isMapped p"
  by (rule ext) (simp add: isMapped_def)




subsection \<open>What the steps of \<open>newPage\<close> leave alone\<close>

lemma closeStale_fields [simp]:
  "pagesToInstancesMap (closeStale qs p) = pagesToInstancesMap p"
  "activeInstances (closeStale qs p) = activeInstances p"
  "retiredInstances (closeStale qs p) = retiredInstances p"
  "instances (closeStale qs p) = instances p"
  "browserCounter (closeStale qs p) = browserCounter p"
  "pageCounter (closeStale qs p) = pageCounter p"
  "closedPages (closeStale qs p) = closedPages p \<union> set qs"
  by (induction qs arbitrary: p) auto

lemma closeStale_config [simp]:
  "retireInstanceAfterRequestCount (closeStale qs p) = retireInstanceAfterRequestCount p"
  "maxOpenPagesPerInstance (closeStale qs p) = maxOpenPagesPerInstance p"
  by (induction qs arbitrary: p) (auto simp: closePage_def record_op_def)

lemma retireInstance_fields [simp]:
  "instances (retireInstance i p) = instances p"
  "pagesToInstancesMap (retireInstance i p) = pagesToInstancesMap p"
  "closedPages (retireInstance i p) = closedPages p"
  "idlePages (retireInstance i p) = idlePages p"
  "browserCounter (retireInstance i p) = browserCounter p"
  "pageCounter (retireInstance i p) = pageCounter p"
  "retireInstanceAfterRequestCount (retireInstance i p) = retireInstanceAfterRequestCount p"
  "set (activeInstances (retireInstance i p)) = set (activeInstances p) - {i}"
  by (auto simp: retireInstance_def)


lemma incrementPageCount_fields [simp]:
  "pagesToInstancesMap (incrementPageCount now i p) = pagesToInstancesMap p"
  "closedPages (incrementPageCount now i p) = closedPages p"
  "idlePages (incrementPageCount now i p) = idlePages p"
  "browserCounter (incrementPageCount now i p) = browserCounter p"
  "pageCounter (incrementPageCount now i p) = pageCounter p"
  "retireInstanceAfterRequestCount (incrementPageCount now i p) = retireInstanceAfterRequestCount p"
  by (auto simp: incrementPageCount_def Let_def split: option.splits)


lemma incrementPageCount_active:
  "set (activeInstances (incrementPageCount now i p)) \<subseteq> set (activeInstances p)"
  by (auto simp: incrementPageCount_def Let_def split: option.splits if_splits)

lemma incrementPageCount_instances:
  "instances (incrementPageCount now i p) j =
     (if j = i then map_option (\<lambda>inst. inst\<lparr>lastPageOpenedAt := now, totalPages := totalPages inst + 1\<rparr>)
                      (instances p i)
      else instances p j)"
  by (auto simp: incrementPageCount_def Let_def split: option.splits)

lemma bumpActivePages_fields [simp]:
  "pagesToInstancesMap (bumpActivePages i p) = pagesToInstancesMap p"
  "closedPages (bumpActivePages i p) = closedPages p"
  "idlePages (bumpActivePages i p) = idlePages p"
  "browserCounter (bumpActivePages i p) = browserCounter p"
  "pageCounter (bumpActivePages i p) = pageCounter p"
  "retireInstanceAfterRequestCount (bumpActivePages i p) = retireInstanceAfterRequestCount p"
  "activeInstances (bumpActivePages i p) = activeInstances p"
  "retiredInstances (bumpActivePages i p) = retiredInstances p"
  by (auto simp: bumpActivePages_def split: option.splits)

lemma bumpActivePages_bound [simp]:
  "activeOrRetiredAtLimit (bumpActivePages i p) j = activeOrRetiredAtLimit p j"
  by (auto simp: bumpActivePages_def activeOrRetiredAtLimit_def split: option.splits)

lemma takeDiskCacheDir_fields [simp]:
  "activeInstances (snd (takeDiskCacheDir penv i p)) = activeInstances p"
  "retiredInstances (snd (takeDiskCacheDir penv i p)) = retiredInstances p"
  "instances (snd (takeDiskCacheDir penv i p)) = instances p"
  "browserCounter (snd (takeDiskCacheDir penv i p)) = browserCounter p"
  "pagesToInstancesMap (snd (takeDiskCacheDir penv i p)) = pagesToInstancesMap p"
  "closedPages (snd (takeDiskCacheDir penv i p)) = closedPages p"
  "idlePages (snd (takeDiskCacheDir penv i p)) = idlePages p"
  "pageCounter (snd (takeDiskCacheDir penv i p)) = pageCounter p"
  "retireInstanceAfterRequestCount (snd (takeDiskCacheDir penv i p)) = retireInstanceAfterRequestCount p"
  "proxyUrls (snd (takeDiskCacheDir penv i p)) = proxyUrls p"
  by (simp_all add: takeDiskCacheDir_def record_op_def split: option.splits list.splits sum.splits)

lemma launchPuppeteerFunction_fields [simp]:
  "activeInstances (snd (launchPuppeteerFunction penv i p)) = activeInstances p"
  "retiredInstances (snd (launchPuppeteerFunction penv i p)) = retiredInstances p"
  "instances (snd (launchPuppeteerFunction penv i p)) = instances p"
  "browserCounter (snd (launchPuppeteerFunction penv i p)) = browserCounter p"
  "pagesToInstancesMap (snd (launchPuppeteerFunction penv i p)) = pagesToInstancesMap p"
  "closedPages (snd (launchPuppeteerFunction penv i p)) = closedPages p"
  "idlePages (snd (launchPuppeteerFunction penv i p)) = idlePages p"
  "pageCounter (snd (launchPuppeteerFunction penv i p)) = pageCounter p"
  "retireInstanceAfterRequestCount (snd (launchPuppeteerFunction penv i p)) = retireInstanceAfterRequestCount p"
proof -
  obtain res p1 where t: "takeDiskCacheDir penv i p = (res, p1)"
    by (cases "takeDiskCacheDir penv i p")
  have p1: "activeInstances p1 = activeInstances p" "retiredInstances p1 = retiredInstances p"
    "instances p1 = instances p" "browserCounter p1 = browserCounter p"
    "pagesToInstancesMap p1 = pagesToInstancesMap p" "closedPages p1 = closedPages p"
    "idlePages p1 = idlePages p" "pageCounter p1 = pageCounter p"
    "retireInstanceAfterRequestCount p1 = retireInstanceAfterRequestCount p"
    using takeDiskCacheDir_fields [of penv i p] by (simp_all add: t)
  show "activeInstances (snd (launchPuppeteerFunction penv i p)) = activeInstances p"
    "retiredInstances (snd (launchPuppeteerFunction penv i p)) = retiredInstances p"
    "instances (snd (launchPuppeteerFunction penv i p)) = instances p"
    "browserCounter (snd (launchPuppeteerFunction penv i p)) = browserCounter p"
    "pagesToInstancesMap (snd (launchPuppeteerFunction penv i p)) = pagesToInstancesMap p"
    "closedPages (snd (launchPuppeteerFunction penv i p)) = closedPages p"
    "idlePages (snd (launchPuppeteerFunction penv i p)) = idlePages p"
    "pageCounter (snd (launchPuppeteerFunction penv i p)) = pageCounter p"
    "retireInstanceAfterRequestCount (snd (launchPuppeteerFunction penv i p)) = retireInstanceAfterRequestCount p"
    unfolding launchPuppeteerFunction_def t
    by (simp_all add: Let_def record_op_def p1 split: sum.splits option.splits bool.splits)
qed

lemma launchInstance_fields [simp]:
  "fst (launchInstance penv now p) = browserCounter p"
  "browserCounter (snd (launchInstance penv now p)) = browserCounter p + 1"
  "set (activeInstances (snd (launchInstance penv now p))) =
     insert (browserCounter p) (set (activeInstances p))"
  "retiredInstances (snd (launchInstance penv now p)) = retiredInstances p"
  "pagesToInstancesMap (snd (launchInstance penv now p)) = pagesToInstancesMap p"
  "closedPages (snd (launchInstance penv now p)) = closedPages p"
  "idlePages (snd (launchInstance penv now p)) = idlePages p"
  "pageCounter (snd (launchInstance penv now p)) = pageCounter p"
  "retireInstanceAfterRequestCount (snd (launchInstance penv now p)) = retireInstanceAfterRequestCount p"
  by (simp_all add: launchInstance_def Let_def case_prod_beta set_insort_key)


lemma initBrowser_fields [simp]:
  "pagesToInstancesMap (initBrowser i p) = pagesToInstancesMap p"
  "closedPages (initBrowser i p) = closedPages p"
  "idlePages (initBrowser i p) = idlePages p"
  "browserCounter (initBrowser i p) = browserCounter p"
  "pageCounter (initBrowser i p) = pageCounter p"
  "retireInstanceAfterRequestCount (initBrowser i p) = retireInstanceAfterRequestCount p"
  "retiredInstances (initBrowser i p) = retiredInstances p"
  by (simp_all add: initBrowser_def record_op_def split: option.splits sum.splits)



lemma initBrowser_failed:
  assumes "instances p i = Some inst" and "browserPromise inst = Inl err"
  shows "i \<notin> set (activeInstances (initBrowser i p))"
  using assms by (simp add: initBrowser_def record_op_def)

lemma record_op_fields [simp]:
  "pagesToInstancesMap (record_op k p) = pagesToInstancesMap p"
  "closedPages (record_op k p) = closedPages p"
  "idlePages (record_op k p) = idlePages p"
  "browserCounter (record_op k p) = browserCounter p"
  "pageCounter (record_op k p) = pageCounter p"
  "retireInstanceAfterRequestCount (record_op k p) = retireInstanceAfterRequestCount p"
  "retiredInstances (record_op k p) = retiredInstances p"
  "activeInstances (record_op k p) = activeInstances p"
  "instances (record_op k p) = instances p"
  by (simp_all add: record_op_def)

lemma activeOrRetiredAtLimit_cong:
  assumes "instances p' i = instances p i" and "activeInstances p' = activeInstances p"
    and "retiredInstances p' = retiredInstances p"
    and "retireInstanceAfterRequestCount p' = retireInstanceAfterRequestCount p"
  shows "activeOrRetiredAtLimit p' i = activeOrRetiredAtLimit p i"
  using assms by (simp add: activeOrRetiredAtLimit_def split: option.splits)



subsection \<open>\<open>newPage\<close>\<close>





subsection \<open>Disk-cache recycling\<close>

lemma noDiskCache_new:
  assumes "new_PuppeteerPool opts = Inr p"
  shows "noDiskCache p"
  using assms
  by (auto simp: new_PuppeteerPool_def noDiskCache_def recyclingOff_def Let_def split: if_splits)

lemma noDiskCache_record_op:
  "noDiskCache p \<Longrightarrow> \<not> isDiskCacheOp (launchPuppeteerOptions p) k \<Longrightarrow> noDiskCache (record_op k p)"
  by (simp add: noDiskCache_def recyclingOff_def record_op_def)

lemma noDiskCache_idlePages [simp]: "noDiskCache (p\<lparr>idlePages := xs\<rparr>) = noDiskCache p"
  by (simp add: noDiskCache_def recyclingOff_def)

lemma noDiskCache_closePage: "noDiskCache p \<Longrightarrow> noDiskCache (closePage q p)"
  by (simp add: noDiskCache_def recyclingOff_def closePage_def record_op_def isDiskCacheOp_def)

lemma noDiskCache_retireInstance: "noDiskCache p \<Longrightarrow> noDiskCache (retireInstance i p)"
  by (simp add: noDiskCache_def recyclingOff_def retireInstance_def)

lemma noDiskCache_incrementPageCount: "noDiskCache p \<Longrightarrow> noDiskCache (incrementPageCount now i p)"
  by (auto simp: noDiskCache_def recyclingOff_def incrementPageCount_def retireInstance_def Let_def
      hasNoDiskCacheDir_def split: option.splits if_splits)

lemma noDiskCache_bumpActivePages: "noDiskCache p \<Longrightarrow> noDiskCache (bumpActivePages i p)"
  by (auto simp: noDiskCache_def recyclingOff_def bumpActivePages_def hasNoDiskCacheDir_def
      split: option.splits if_splits)

lemma noDiskCache_recyclePage: "noDiskCache p \<Longrightarrow> noDiskCache (recyclePage q p)"
  by (simp add: recyclePage_def noDiskCache_closePage)

lemma takeDiskCacheDir_off:
  "\<not> recycleDiskCache p \<Longrightarrow> takeDiskCacheDir penv i p = (Inr None, p)"
  by (simp add: takeDiskCacheDir_def)

lemma launchOptions_args:
  "args (launchOptions None p) = args (default_to empty_launch_options (launchPuppeteerOptions p))"
  by (simp add: launchOptions_def Let_def split: option.splits)

lemma noDiskCache_launchPuppeteerFunction:
  assumes "noDiskCache p"
  shows "noDiskCache (snd (launchPuppeteerFunction penv i p))"
    and "case fst (launchPuppeteerFunction penv i p) of
           Inl err \<Rightarrow> True | Inr b \<Rightarrow> browser_recycleDiskCacheDir b = None"
proof -
  have off: "\<not> recycleDiskCache p" using assms by (simp add: noDiskCache_def)
  show "noDiskCache (snd (launchPuppeteerFunction penv i p))"
    using assms
    by (auto simp: launchPuppeteerFunction_def takeDiskCacheDir_off [OF off] Let_def
        noDiskCache_def recyclingOff_def record_op_def isDiskCacheOp_def launchOptions_args
        split: sum.splits option.splits bool.splits)
  show "case fst (launchPuppeteerFunction penv i p) of
           Inl err \<Rightarrow> True | Inr b \<Rightarrow> browser_recycleDiskCacheDir b = None"
    by (auto simp: launchPuppeteerFunction_def takeDiskCacheDir_off [OF off] Let_def
        split: sum.splits option.splits bool.splits)
qed

lemma noDiskCache_browserCounter [simp]:
  "noDiskCache (p\<lparr>browserCounter := n\<rparr>) = noDiskCache p"
  by (simp add: noDiskCache_def recyclingOff_def)

lemma noDiskCache_launchInstance:
  assumes "noDiskCache p"
  shows "noDiskCache (snd (launchInstance penv now p))"
proof -
  let ?p1 = "p\<lparr>browserCounter := browserCounter p + 1\<rparr>"
  have p1: "noDiskCache ?p1" using assms by simp
  note l = noDiskCache_launchPuppeteerFunction [OF p1, of penv "browserCounter p"]
  show ?thesis
    using l
    by (auto simp: launchInstance_def Let_def case_prod_beta noDiskCache_def recyclingOff_def
        hasNoDiskCacheDir_def split: sum.splits)
qed

lemma noDiskCache_initBrowser: "noDiskCache p \<Longrightarrow> noDiskCache (initBrowser i p)"
  by (auto simp: noDiskCache_def recyclingOff_def initBrowser_def record_op_def isDiskCacheOp_def
      hasNoDiskCacheDir_def split: option.splits sum.splits if_splits)

lemma noDiskCache_pages [simp]:
  "noDiskCache (p\<lparr>pageCounter := n, pagesToInstancesMap := m\<rparr>) = noDiskCache p"
  by (simp add: noDiskCache_def recyclingOff_def)

lemma noDiskCache_openNewTab:
  assumes "noDiskCache p"
  shows "noDiskCache (snd (openNewTab penv now p))"
proof -
  have log: "noDiskCache q \<Longrightarrow> noDiskCache (retireInstance i (record_op (PoolLog s) q))" for q i s
    by (simp add: noDiskCache_retireInstance noDiskCache_record_op isDiskCacheOp_def)
  have tab: "noDiskCache q \<Longrightarrow> noDiskCache (record_op (BrowserNewPage i n) q)" for q i n
    by (simp add: noDiskCache_record_op isDiskCacheOp_def)
  have step: "noDiskCache q \<Longrightarrow> noDiskCache (bumpActivePages i (incrementPageCount now i q))" for q i
    by (simp add: noDiskCache_bumpActivePages noDiskCache_incrementPageCount)
  show ?thesis
  proof (cases "find (hasCapacity p) (activeInstances p)")
    case None
    show ?thesis
      unfolding openNewTab_def None
      using step [OF noDiskCache_launchInstance [OF assms, of penv now]]
      by (simp add: case_prod_beta Let_def log tab noDiskCache_initBrowser
          split: sum.splits option.splits)
  next
    case (Some i)
    show ?thesis
      unfolding openNewTab_def Some
      using step [OF assms]
      by (simp add: Let_def log tab split: sum.splits option.splits)
  qed
qed

lemma noDiskCache_reuseIdlePage:
  "noDiskCache p \<Longrightarrow> noDiskCache (snd (reuseIdlePage now pages p))"
proof (induction pages arbitrary: p)
  case Nil
  then show ?case by simp
next
  case (Cons q pages)
  have a: "noDiskCache (snd (reuseIdlePage now pages (closePage q (p\<lparr>idlePages := pages\<rparr>))))"
    by (rule Cons.IH) (simp add: noDiskCache_closePage Cons.prems)
  have b: "noDiskCache (snd (reuseIdlePage now pages (p\<lparr>idlePages := pages\<rparr>)))"
    by (rule Cons.IH) (simp add: Cons.prems)
  show ?case
    using a b Cons.prems
    by (simp add: Let_def noDiskCache_incrementPageCount split: option.splits)
qed

lemma noDiskCache_newPage:
  assumes "noDiskCache p"
  shows "noDiskCache (snd (newPage penv now p))"
proof -
  obtain res p1 where r: "reuseIdlePage now (idlePages p) p = (res, p1)"
    by (cases "reuseIdlePage now (idlePages p) p")
  have p1: "noDiskCache p1"
    using noDiskCache_reuseIdlePage [OF assms, of now "idlePages p"] by (simp add: r)
  show ?thesis
    unfolding newPage_def r
    by (simp add: p1 noDiskCache_openNewTab split: sum.splits option.splits)
qed

lemma recycleDiskCacheOf_off:
  assumes "noDiskCache p"
  shows "recycleDiskCacheOf i p = (Inr (), p)"
  using assms
  by (auto simp: recycleDiskCacheOf_def noDiskCache_def hasNoDiskCacheDir_def split: option.splits)

lemma noDiskCache_markKilled: "noDiskCache p \<Longrightarrow> noDiskCache (markKilled i p)"
  by (auto simp: noDiskCache_def recyclingOff_def markKilled_def hasNoDiskCacheDir_def
      split: option.splits if_splits)

lemma noDiskCache_killInstance:
  assumes "noDiskCache p"
  shows "noDiskCache (killInstance penv i p)"
proof (cases "instances p i")
  case None
  then show ?thesis using assms by (simp add: killInstance_def)
next
  case (Some inst)
  let ?p1 = "p\<lparr>retiredInstances := removeAll i (retiredInstances p)\<rparr>"
  let ?p2 = "record_op (BrowserClose i) (markKilled i ?p1)"
  have p1: "noDiskCache ?p1"
    using assms by (simp add: noDiskCache_def recyclingOff_def)
  have p2: "noDiskCache ?p2"
    by (simp add: noDiskCache_record_op noDiskCache_markKilled p1 isDiskCacheOp_def)
  have eq: "record_op (BrowserClose i)
      (?p1\<lparr>instances := (instances ?p1)(i \<mapsto> inst\<lparr>killed := True\<rparr>)\<rparr>) = ?p2"
    by (simp add: markKilled_def Some)
  have log: "noDiskCache q \<Longrightarrow> noDiskCache (record_op (PoolLog s) q)" for q s
    by (simp add: noDiskCache_record_op isDiskCacheOp_def)
  show ?thesis
    unfolding killInstance_def Some Let_def option.case eq
    using assms p1 p2
    by (simp add: recycleDiskCacheOf_off [OF p2] log split: sum.splits)
qed

lemma noDiskCache_killInstance_timeout:
  assumes "noDiskCache p"
  shows "noDiskCache (snd (killInstance_timeout i p))"
proof -
  have k: "noDiskCache (record_op (KillChildProcess i) p)"
    using assms by (simp add: noDiskCache_record_op isDiskCacheOp_def)
  show ?thesis
    using assms k
    by (simp add: killInstance_timeout_def recycleDiskCacheOf_off split: option.splits)
qed

lemma noDiskCache_closeBrowser:
  assumes "noDiskCache p"
  shows "noDiskCache (snd (closeBrowser penv i p))"
proof -
  have c: "noDiskCache (record_op (BrowserClose i) p)"
    using assms by (simp add: noDiskCache_record_op isDiskCacheOp_def)
  have b: "instances p i = Some inst \<Longrightarrow> browserPromise inst = Inr b \<Longrightarrow>
      browser_recycleDiskCacheDir b = None" for inst b
    using assms by (fastforce simp: noDiskCache_def hasNoDiskCacheDir_def)
  show ?thesis
    using assms c b
    by (auto simp: closeBrowser_def split: option.splits sum.splits)
qed

lemma noDiskCache_closeBrowsers:
  "noDiskCache p \<Longrightarrow> noDiskCache (snd (closeBrowsers penv is p))"
proof (induction "is" arbitrary: p)
  case Nil
  then show ?case by simp
next
  case (Cons i rest)
  have "noDiskCache (snd (closeBrowsers penv rest (snd (closeBrowser penv i p))))"
    by (rule Cons.IH) (rule noDiskCache_closeBrowser [OF Cons.prems])
  then show ?case
    by (simp add: case_prod_beta)
qed

lemma noDiskCache_fold_markKilled:
  "noDiskCache p \<Longrightarrow> noDiskCache (fold markKilled is p)"
  by (induction "is" arbitrary: p) (simp_all add: noDiskCache_markKilled)

lemma noDiskCache_destroy:
  assumes "noDiskCache p"
  shows "noDiskCache (destroy penv p)"
proof -
  let ?all = "activeInstances p @ retiredInstances p"
  obtain ok p2 where c: "closeBrowsers penv ?all (fold markKilled ?all p) = (ok, p2)"
    by (cases "closeBrowsers penv ?all (fold markKilled ?all p)")
  have p2: "noDiskCache p2"
    using noDiskCache_closeBrowsers [OF noDiskCache_fold_markKilled [OF assms], of penv ?all ?all]
    unfolding c by simp
  then have none: "recycledDiskCacheDirs p2 = None"
    by (simp add: noDiskCache_def recyclingOff_def)
  have log: "noDiskCache (record_op (PoolLog s) p2)" for s
    using p2 by (simp add: noDiskCache_record_op isDiskCacheOp_def)
  show ?thesis
    unfolding destroy_def Let_def c
    by (cases ok) (simp_all add: none p2 log)
qed

lemma noDiskCache_pool_step: "noDiskCache p \<Longrightarrow> noDiskCache (pool_step penv c p)"
  by (cases c)
    (simp_all add: noDiskCache_newPage noDiskCache_recyclePage noDiskCache_retireInstance
      noDiskCache_killInstance noDiskCache_killInstance_timeout noDiskCache_destroy)

lemma noDiskCache_runPool: "noDiskCache p \<Longrightarrow> noDiskCache (runPool penv cs p)"
  unfolding runPool_def
  by (induction cs arbitrary: p) (simp_all add: noDiskCache_pool_step)

lemma recycling_pool_eval: "new_PuppeteerPool recycling_options = Inr (pool_of recycling_options)"
  by (simp add: pool_of_def new_PuppeteerPool_def recycling_options_def no_pool_options_def Let_def)

text \<open>
  Claim C6, as amended. Disk-cache recycling is switched off in the constructor, whatever
  \<open>options.recycleDiskCache\<close> says and whether the pool is headful or not. So in every pool
  that the constructor builds, and after any sequence of \<open>newPage\<close>, \<open>recyclePage\<close>,
  retirements, kills and \<open>destroy\<close>, there is no free-list of cache directories, every
  browser has been launched with exactly the arguments the user gave (no
  \<open>--disk-cache-dir\<close>), and no directory has been created or removed.
\<close>

theorem C6_recycling_disabled:
  assumes "new_PuppeteerPool opts = Inr p"
  shows "recyclingOff (runPool penv cs p)"
  using noDiskCache_runPool [OF noDiskCache_new [OF assms], of penv cs]
  by (simp add: noDiskCache_def)

text \<open>
  A headful pool that asks for recycling: its first instance is retired and killed, a second
  one is launched, and the pool is destroyed.
\<close>

theorem C6_recycling_disabled_witness:
  "new_PuppeteerPool recycling_options = Inr (pool_of recycling_options) \<and>
   recyclingOff
     (runPool penv_ok [NewPage 0, KillInstance 0, KillInstanceTimeout 0, NewPage 1, Destroy]
        (pool_of recycling_options))"
  using C6_recycling_disabled [where opts = recycling_options and p = "pool_of recycling_options"
      and penv = penv_ok
      and cs = "[NewPage 0, KillInstance 0, KillInstanceTimeout 0, NewPage 1, Destroy]"]
  by (simp add: recycling_pool_eval)

text \<open>
  Claim C6 as stated fails on that run: recycling was asked for on a headful pool, the
  retired instance 0 was killed, and yet instance 1 is launched without a
  \<open>--disk-cache-dir\<close> argument, nothing was pushed on a free-list (there is none), and
  \<open>destroy\<close> removes no directory.
\<close>

theorem C6_counterexample:
  "o_recycleDiskCache recycling_options = Some True \<and>
   map_option headless (o_launchPuppeteerOptions recycling_options) = Some (Some False) \<and>
   (let p = runPool penv_ok [NewPage 0, KillInstance 0, KillInstanceTimeout 0, NewPage 1, Destroy]
              (pool_of recycling_options)
    in recycledDiskCacheDirs p = None \<and>
       ops p =
         [LaunchBrowser 0 headful_options, BrowserNewPage 0 0, BrowserClose 0, KillChildProcess 0,
          LaunchBrowser 1 headful_options, BrowserNewPage 1 1, BrowserClose 1])"
  by code_simp

subsection \<open>Proper use keeps the pool well formed\<close>

lemma pool_inv_iff:
  "pool_inv p \<longleftrightarrow>
     (\<forall>q\<in>set (idlePages p). pagesToInstancesMap p q \<noteq> None) \<and>
     (\<forall>i\<in>set (activeInstances p).
        i < browserCounter p \<and> (\<exists>inst. instances p i = Some inst \<and> \<not> killed inst)) \<and>
     (\<forall>i\<in>set (retiredInstances p). i < browserCounter p \<and> i \<notin> set (activeInstances p))"
  by (auto simp: pool_inv_def pool_wf_def list_all_iff isMapped_def isLiveInstance_def
      isRetiredInstance_def split: option.splits)


















text \<open>A retired instance is not active, so it may be killed.\<close>

lemma retired_may_be_killed:
  "pool_inv p \<Longrightarrow> i \<in> set (retiredInstances p) \<Longrightarrow> properCall p (KillInstance i)"
  by (auto simp: pool_inv_iff)



subsection \<open>The page that \<open>newPage\<close> returns\<close>












end

